theory Spec2Isabelle
  imports Main "HOL-Library.Finite_Map" "HOL-Library.AList"
begin

section \<open>Values held by a form\<close>

text \<open>
  The form library (vue-form-controller) stores arbitrary JavaScript data under string
  paths. The values that matter to the validator and to the form state are the plain
  data values: \<open>undefined\<close>, \<open>null\<close>, booleans, numbers, strings, arrays and plain objects.
  Numbers are modelled by the integers (no fractions, \<open>NaN\<close> or infinities), strings by
  \<open>string\<close>, arrays by lists (a hole reads as \<open>undefined\<close>) and plain objects by finite
  maps from property names to values, so that two objects are equal exactly when they
  have the same own properties with equal values, whatever the order of insertion.
  Functions, dates, class instances, inherited properties and named properties of arrays
  are outside this value type.
\<close>

datatype jsval =
    Undefined
  | Null
  | Bool bool
  | Num int
  | Str string
  | Arr "jsval list"
  | Obj "(string, jsval) fmap"

subsection \<open>Conversion to strings\<close>

definition digitChar :: "nat \<Rightarrow> char" where
  "digitChar d = ''0123456789'' ! d"

function natToString :: "nat \<Rightarrow> string" where
  "natToString n =
     (if n < 10 then [digitChar n] else natToString (n div 10) @ [digitChar (n mod 10)])"
  by pat_completeness auto
termination
  by (relation "measure id") auto

declare natToString.simps [simp del]

text \<open>The decimal form of a number, as \<open>${n}\<close> and \<open>n.toString()\<close> give it.\<close>

definition numberToString :: "int \<Rightarrow> string" where
  "numberToString n = (if n < 0 then CHR ''-'' # natToString (nat (- n)) else natToString (nat n))"

fun join :: "string list \<Rightarrow> string" where
  "join [] = []"
| "join [s] = s"
| "join (s # t # ts) = s @ CHR '','' # join (t # ts)"

text \<open>
  \<open>jsString v\<close> is JavaScript's conversion of \<open>v\<close> to a string (\<open>String(v)\<close>): an array
  joins its elements with commas, writing nothing for \<open>null\<close> and \<open>undefined\<close> elements,
  and a plain object is \<open>[object Object]\<close>.
\<close>

fun jsString :: "jsval \<Rightarrow> string" where
  "jsString Undefined = ''undefined''"
| "jsString Null = ''null''"
| "jsString (Bool b) = (if b then ''true'' else ''false'')"
| "jsString (Num n) = numberToString n"
| "jsString (Str s) = s"
| "jsString (Arr xs) =
     join (map (\<lambda>x. if x = Undefined \<or> x = Null then [] else jsString x) xs)"
| "jsString (Obj m) = ''[object Object]''"

text \<open>
  \<open>optToString v\<close> is the expression \<open>(value as unknown)?.toString()\<close>: the optional chain
  yields \<open>undefined\<close> (here \<open>None\<close>) for \<open>null\<close> and \<open>undefined\<close>.
\<close>

definition optToString :: "jsval \<Rightarrow> string option" where
  "optToString v = (if v = Undefined \<or> v = Null then None else Some (jsString v))"

section \<open>Regular expressions\<close>

text \<open>
  A rule's \<open>pattern\<close> is handed to \<open>new RegExp(pattern).test(s)\<close>. The patterns modelled
  are regular expressions over characters, optionally anchored at the start (\<open>^\<close>) and
  at the end (\<open>$\<close>); \<open>test\<close> looks for a match anywhere in the string unless an anchor
  forbids it. A pattern given as a string is taken as already parsed. Matching is by
  derivatives, so it can be evaluated on concrete strings.
\<close>

datatype rexp =
    Fail
  | Eps
  | Lit char
  | CharRange char char
  | AnyChar
  | Seq rexp rexp
  | Alt rexp rexp
  | Star rexp

definition Plus :: "rexp \<Rightarrow> rexp" where
  "Plus r = Seq r (Star r)"

fun nullable :: "rexp \<Rightarrow> bool" where
  "nullable Fail = False"
| "nullable Eps = True"
| "nullable (Lit c) = False"
| "nullable (CharRange lo hi) = False"
| "nullable AnyChar = False"
| "nullable (Seq r s) = (nullable r \<and> nullable s)"
| "nullable (Alt r s) = (nullable r \<or> nullable s)"
| "nullable (Star r) = True"

fun deriv :: "char \<Rightarrow> rexp \<Rightarrow> rexp" where
  "deriv c Fail = Fail"
| "deriv c Eps = Fail"
| "deriv c (Lit d) = (if c = d then Eps else Fail)"
| "deriv c (CharRange lo hi) =
     (if (of_char lo :: nat) \<le> of_char c \<and> (of_char c :: nat) \<le> of_char hi then Eps else Fail)"
| "deriv c AnyChar = Eps"
| "deriv c (Seq r s) =
     (if nullable r then Alt (Seq (deriv c r) s) (deriv c s) else Seq (deriv c r) s)"
| "deriv c (Alt r s) = Alt (deriv c r) (deriv c s)"
| "deriv c (Star r) = Seq (deriv c r) (Star r)"

fun matches :: "rexp \<Rightarrow> string \<Rightarrow> bool" where
  "matches r [] = nullable r"
| "matches r (c # cs) = matches (deriv c r) cs"

record RegExp =
  anchoredStart :: bool
  body :: rexp
  anchoredEnd :: bool

definition RegExp_test :: "RegExp \<Rightarrow> string \<Rightarrow> bool" where
  "RegExp_test p s =
     matches (Seq (if anchoredStart p then Eps else Star AnyChar)
                  (Seq (body p) (if anchoredEnd p then Eps else Star AnyChar))) s"

section \<open>The validator (validations/index.ts)\<close>

text \<open>
  A \<open>ControlRule\<close> has five optional members. \<open>validate\<close> is the caller's own check: it
  receives the value and the form's values and returns a list of messages or \<open>undefined\<close>
  (\<open>None\<close>).
\<close>

record ControlRule =
  required :: "bool option"
  minLength :: "int option"
  maxLength :: "int option"
  validate :: "(jsval \<Rightarrow> jsval \<Rightarrow> string list option) option"
  pattern :: "RegExp option"

definition maxLengthMessage :: "int \<Rightarrow> string" where
  "maxLengthMessage n = ''The field may not be longer than '' @ numberToString n @ '' characters!''"

definition minLengthMessage :: "int \<Rightarrow> string" where
  "minLengthMessage n = ''The field may not be shorter than '' @ numberToString n @ '' characters!''"

definition patternMessage :: string where
  "patternMessage = ''The field did not match the expected pattern!''"

definition requiredMessage :: string where
  "requiredMessage = ''Field is required!''"

text \<open>\<open>controlRules.validate?.(value, fieldValues)\<close>\<close>

definition customValidation :: "ControlRule \<Rightarrow> jsval \<Rightarrow> jsval \<Rightarrow> string list option" where
  "customValidation rule v fieldValues =
     (case validate rule of None \<Rightarrow> None | Some f \<Rightarrow> f v fieldValues)"

text \<open>\<open>(value as unknown)?.toString()?.length || 0\<close>\<close>

definition valueLength :: "jsval \<Rightarrow> int" where
  "valueLength v = (case optToString v of None \<Rightarrow> 0 | Some s \<Rightarrow> int (length s))"

text \<open>
  The string that \<open>test\<close> receives: the argument \<open>(value as unknown)?.toString()\<close> is
  \<open>undefined\<close> for a nullish value, which \<open>test\<close> converts to the string \<open>undefined\<close>.
\<close>

definition testSubject :: "jsval \<Rightarrow> string" where
  "testSubject v = (case optToString v of None \<Rightarrow> jsString Undefined | Some s \<Rightarrow> s)"

text \<open>
  The three guarded pushes of the \<open>else\<close> branch. A bound guards its comparison by
  truthiness (\<open>controlRules.maxLength && \<dots>\<close>), so a bound that is absent or \<open>0\<close> skips it.
\<close>

definition pushMaxLength :: "ControlRule \<Rightarrow> int \<Rightarrow> string list \<Rightarrow> string list" where
  "pushMaxLength rule len errors =
     (case maxLength rule of
        None \<Rightarrow> errors
      | Some n \<Rightarrow> if n \<noteq> 0 \<and> len > n then errors @ [maxLengthMessage n] else errors)"

definition pushMinLength :: "ControlRule \<Rightarrow> int \<Rightarrow> string list \<Rightarrow> string list" where
  "pushMinLength rule len errors =
     (case minLength rule of
        None \<Rightarrow> errors
      | Some n \<Rightarrow> if n \<noteq> 0 \<and> len < n then errors @ [minLengthMessage n] else errors)"

definition pushPattern :: "ControlRule \<Rightarrow> jsval \<Rightarrow> string list \<Rightarrow> string list" where
  "pushPattern rule v errors =
     (case pattern rule of
        None \<Rightarrow> errors
      | Some p \<Rightarrow> if \<not> RegExp_test p (testSubject v) then errors @ [patternMessage] else errors)"

definition getFieldErrors :: "jsval \<Rightarrow> ControlRule option \<Rightarrow> jsval \<Rightarrow> string list" where
  "getFieldErrors v controlRules fieldValues =
     (case controlRules of
        None \<Rightarrow> []
      | Some rule \<Rightarrow>
          (case customValidation rule v fieldValues of
             Some errs \<Rightarrow> errs
           | None \<Rightarrow>
               let len = valueLength v;
                   notFilled = (required rule = Some True \<and> len = 0);
                   errors = []
               in if notFilled then errors @ [requiredMessage]
                  else pushPattern rule v (pushMinLength rule len (pushMaxLength rule len errors))))"

section \<open>The deep-path utility (lodash \<open>get\<close>, \<open>set\<close>, \<open>isEqual\<close>, \<open>cloneDeep\<close>)\<close>

text \<open>
  The form reads and writes its values through lodash. What follows is the behaviour of
  those helpers on the value type above, for paths of the form the library's path type
  describes: property names separated by dots, an array index written either bare or in
  brackets (\<open>a.b\<close>, \<open>todos.0\<close>, \<open>todos.[0].title\<close>, \<open>todos[0]\<close>). Quoted keys in brackets and
  an own property whose name itself contains a dot are not modelled.
\<close>

definition isObject :: "jsval \<Rightarrow> bool" where
  "isObject v = (case v of Arr xs \<Rightarrow> True | Obj m \<Rightarrow> True | _ \<Rightarrow> False)"

definition isNullish :: "jsval \<Rightarrow> bool" where
  "isNullish v = (v = Undefined \<or> v = Null)"

definition isDigit :: "char \<Rightarrow> bool" where
  "isDigit c = ((48::nat) \<le> of_char c \<and> (of_char c :: nat) \<le> 57)"

text \<open>\<open>isIndex\<close>: the key is a canonical array index (\<open>/^(?:0|[1-9]\d*)$/\<close>).\<close>

fun isIndex :: "string \<Rightarrow> bool" where
  "isIndex [] = False"
| "isIndex [c] = isDigit c"
| "isIndex (c # d # cs) = (c \<noteq> CHR ''0'' \<and> isDigit c \<and> list_all isDigit (d # cs))"

definition indexOf :: "string \<Rightarrow> nat" where
  "indexOf k = foldl (\<lambda>n c. 10 * n + (of_char c - 48)) 0 k"

text \<open>Splitting a string at every character that satisfies \<open>sep\<close>; \<open>cur\<close> is the piece being read.\<close>

fun splitAt :: "(char \<Rightarrow> bool) \<Rightarrow> string \<Rightarrow> string \<Rightarrow> string list" where
  "splitAt sep cur [] = [cur]"
| "splitAt sep cur (c # cs) =
     (if sep c then cur # splitAt sep [] cs else splitAt sep (cur @ [c]) cs)"

text \<open>
  The keys of one dot-separated segment: its pieces between brackets. A segment without
  any such piece is kept as one key, so a path always has at least one key.
\<close>

definition segmentKeys :: "string \<Rightarrow> string list" where
  "segmentKeys seg =
     (let pieces = filter (\<lambda>p. p \<noteq> []) (splitAt (\<lambda>c. c = CHR ''['' \<or> c = CHR '']'') [] seg)
      in if pieces = [] then [seg] else pieces)"

text \<open>
  \<open>castPath\<close>: a string without dot or bracket is a single key (\<open>isKey\<close>); otherwise it is
  split into its keys (\<open>stringToPath\<close>).
\<close>

definition castPath :: "string \<Rightarrow> string list" where
  "castPath path =
     (if CHR ''.'' \<notin> set path \<and> CHR ''['' \<notin> set path then [path]
      else concat (map segmentKeys (splitAt (\<lambda>c. c = CHR ''.'') [] path)))"

text \<open>
  \<open>object[key]\<close> on the own properties of an object and the elements of an array. The
  \<open>length\<close> of an array and the properties of a primitive value (the \<open>length\<close> and the
  characters of a string) are not modelled: they read as \<open>undefined\<close>.
\<close>

definition getProp :: "jsval \<Rightarrow> string \<Rightarrow> jsval" where
  "getProp object key =
     (case object of
        Obj m \<Rightarrow> (case fmlookup m key of None \<Rightarrow> Undefined | Some v \<Rightarrow> v)
      | Arr xs \<Rightarrow> if isIndex key \<and> indexOf key < length xs then xs ! indexOf key else Undefined
      | _ \<Rightarrow> Undefined)"

text \<open>
  \<open>baseGet\<close>: \<open>while (object != null && index < length) object = object[path[index++]]\<close>,
  the result being \<open>undefined\<close> when the walk stops early.
\<close>

fun baseGet :: "jsval \<Rightarrow> string list \<Rightarrow> jsval" where
  "baseGet object [] = object"
| "baseGet object (key # keys) =
     (if isNullish object then Undefined else baseGet (getProp object key) keys)"

definition get :: "jsval \<Rightarrow> string \<Rightarrow> jsval" where
  "get object path = (if isNullish object then Undefined else baseGet object (castPath path))"

text \<open>
  \<open>object[key] = value\<close>. Writing an array beyond its end leaves holes, which read as
  \<open>undefined\<close>. A named (non-index) property of an array has no place in the value type:
  such a write leaves the array as it is.
\<close>

definition assignValue :: "jsval \<Rightarrow> string \<Rightarrow> jsval \<Rightarrow> jsval" where
  "assignValue object key v =
     (case object of
        Obj m \<Rightarrow> Obj (fmupd key v m)
      | Arr xs \<Rightarrow>
          if isIndex key then
            (if indexOf key < length xs then Arr (xs[indexOf key := v])
             else Arr (xs @ replicate (indexOf key - length xs) Undefined @ [v]))
          else Arr xs
      | _ \<Rightarrow> object)"

definition unsafeKey :: "string \<Rightarrow> bool" where
  "unsafeKey key = (key = ''__proto__'' \<or> key = ''constructor'' \<or> key = ''prototype'')"

text \<open>
  The loop of \<open>baseSet\<close>. On the way to the last key, a property that is not an object
  is replaced by a new array (when the next key is an index) or a new object; an unsafe
  key ends the walk.
\<close>

fun setLoop :: "jsval \<Rightarrow> string list \<Rightarrow> jsval \<Rightarrow> jsval" where
  "setLoop nested [] v = nested"
| "setLoop nested [key] v = (if unsafeKey key then nested else assignValue nested key v)"
| "setLoop nested (key # next # keys) v =
     (if unsafeKey key then nested
      else
        let objValue = getProp nested key;
            newValue = (if isObject objValue then objValue
                        else if isIndex next then Arr [] else Obj fmempty)
        in assignValue nested key (setLoop newValue (next # keys) v))"

definition baseSet :: "jsval \<Rightarrow> string \<Rightarrow> jsval \<Rightarrow> jsval" where
  "baseSet object path v = (if \<not> isObject object then object else setLoop object (castPath path) v)"

definition set_path :: "jsval \<Rightarrow> string \<Rightarrow> jsval \<Rightarrow> jsval" where
  "set_path object path v = (if isNullish object then object else baseSet object path v)"

text \<open>
  Deep equality is equality of values: same kind, same own properties, equal elements.
  A deep copy has the same value; that it is a different object shows in the store below.
\<close>

definition isEqual :: "jsval \<Rightarrow> jsval \<Rightarrow> bool" where
  "isEqual a b = (a = b)"

definition cloneDeep :: "jsval \<Rightarrow> jsval" where
  "cloneDeep v = v"

text \<open>
  \<open>Object.keys\<close> of a map kept as an association list in insertion order: the index-like
  keys come first, in ascending order, then the other keys in insertion order.
\<close>

definition objectKeys :: "(string \<times> 'a) list \<Rightarrow> string list" where
  "objectKeys al =
     (let ks = map fst al
      in sort_key indexOf (filter isIndex ks) @ filter (\<lambda>k. \<not> isIndex k) ks)"

section \<open>The store of objects\<close>

text \<open>
  The default values a caller passes and the form's current values are objects that are
  mutated in place and may be shared. They live in a store of cells; a reference is the
  number of a cell, \<open>fresh\<close> the first unused one. Sharing below the top level of an
  object (a nested object reachable from two places) is not modelled: a cell holds a
  whole value.
\<close>

type_synonym ref = nat

record store =
  cells :: "ref \<Rightarrow> jsval"
  fresh :: ref

definition emptyStore :: store where
  "emptyStore = \<lparr>cells = (\<lambda>r. Undefined), fresh = 0\<rparr>"

definition alloc :: "jsval \<Rightarrow> store \<Rightarrow> ref \<times> store" where
  "alloc v h = (fresh h, h\<lparr>cells := (cells h)(fresh h := v), fresh := Suc (fresh h)\<rparr>)"

definition mutate :: "ref \<Rightarrow> (jsval \<Rightarrow> jsval) \<Rightarrow> store \<Rightarrow> store" where
  "mutate r f h = h\<lparr>cells := (cells h)(r := f (cells h r))\<rparr>"

text \<open>\<open>set(object, path, value)\<close> on the object a reference points to.\<close>

definition setAt :: "ref \<Rightarrow> string \<Rightarrow> jsval \<Rightarrow> store \<Rightarrow> store" where
  "setAt r path v h = mutate r (\<lambda>object. set_path object path v) h"

section \<open>The control factory (control/index.ts)\<close>

datatype ValidationMode = ModeOnBlur | ModeOnChange | ModeOnSubmit | ModeAll

type_synonym FieldError = "(string \<times> string list) list"
type_synonym ControlRules = "(string \<times> ControlRule) list"

record CreateControl =
  defaultValues :: ref
  reValidateMode :: ValidationMode
  formValues :: ref
  fieldErrors :: FieldError
  rules :: ControlRules

text \<open>\<open>defaultValues ?? {}\<close>: the caller's object itself, or a new empty object.\<close>

definition orEmptyObject :: "ref option \<Rightarrow> store \<Rightarrow> ref \<times> store" where
  "orEmptyObject dv h = (case dv of Some r \<Rightarrow> (r, h) | None \<Rightarrow> alloc (Obj fmempty) h)"

definition createControl ::
  "ref option \<Rightarrow> ValidationMode option \<Rightarrow> ControlRules option \<Rightarrow> store \<Rightarrow> CreateControl \<times> store"
where
  "createControl dv mode rs h =
     (let (d, h1) = orEmptyObject dv h;
          (src, h2) = orEmptyObject dv h1;
          (f, h3) = alloc (cloneDeep (cells h2 src)) h2
      in (\<lparr>defaultValues = d,
           reValidateMode = (case mode of None \<Rightarrow> ModeOnSubmit | Some m \<Rightarrow> m),
           formValues = f,
           fieldErrors = [],
           rules = (case rs of None \<Rightarrow> [] | Some r \<Rightarrow> r)\<rparr>, h3))"

section \<open>The form state manager (composables/form.ts)\<close>

text \<open>
  The repository holds two snapshots of \<open>useForm\<close>. The one modelled is the current one,
  which the type declarations, \<open>useController\<close> and the README agree with: \<open>handleSubmit\<close>
  takes \<open>onError\<close>, \<open>setValue\<close> takes options, \<open>clearError\<close> deletes the entry, \<open>clearRule\<close>
  exists and \<open>getIsDirty\<close> compares with \<open>isEqual\<close>. The earlier snapshot has no \<open>onError\<close>
  and no \<open>clearRule\<close> (which \<open>useController\<close> calls), calls \<open>setErrors\<close> only when a path
  fails, stores an empty list where the current one deletes the entry, and compares with
  \<open>!==\<close> in \<open>getIsDirty\<close>; it is not modelled.

  A form is the store, the control record held in the \<open>control\<close> ref, the \<open>isSubmitting\<close>
  ref and the \<open>reValidateMode\<close> of the \<open>props\<close> that \<open>useForm\<close> closed over. The wrappers
  of the reactive framework (\<open>ref\<close>, \<open>readonly\<close>, \<open>computed\<close>) are read through: a computed
  value is a function of the form, evaluated when it is read.
\<close>

record Form =
  store :: store
  control :: CreateControl
  isSubmitting :: bool
  propsReValidateMode :: "ValidationMode option"

text \<open>\<open>props?.reValidateMode || "onSubmit"\<close>\<close>

definition propsMode :: "ValidationMode option \<Rightarrow> ValidationMode" where
  "propsMode m = (case m of None \<Rightarrow> ModeOnSubmit | Some x \<Rightarrow> x)"

definition useForm :: "ref option \<Rightarrow> ValidationMode option \<Rightarrow> store \<Rightarrow> Form" where
  "useForm propsDefaultValues propsReValidate h =
     (let (c, h') = createControl propsDefaultValues (Some (propsMode propsReValidate)) None h
      in \<lparr>store = h', control = c, isSubmitting = False, propsReValidateMode = propsReValidate\<rparr>)"

text \<open>The objects behind \<open>formValues.value\<close> and \<open>defaultValues.value\<close>.\<close>

definition formValuesValue :: "Form \<Rightarrow> jsval" where
  "formValuesValue st = cells (store st) (formValues (control st))"

definition defaultValuesValue :: "Form \<Rightarrow> jsval" where
  "defaultValuesValue st = cells (store st) (defaultValues (control st))"

definition getValue :: "string \<Rightarrow> Form \<Rightarrow> jsval" where
  "getValue name st = get (formValuesValue st) name"

definition clearError :: "string \<Rightarrow> Form \<Rightarrow> Form" where
  "clearError name st =
     st\<lparr>control := (control st)\<lparr>fieldErrors := AList.delete name (fieldErrors (control st))\<rparr>\<rparr>"

definition setError :: "string \<Rightarrow> string list \<Rightarrow> Form \<Rightarrow> Form" where
  "setError name error st =
     st\<lparr>control := (control st)\<lparr>fieldErrors := AList.update name error (fieldErrors (control st))\<rparr>\<rparr>"

definition setErrors :: "FieldError \<Rightarrow> Form \<Rightarrow> Form" where
  "setErrors errors st = st\<lparr>control := (control st)\<lparr>fieldErrors := errors\<rparr>\<rparr>"

text \<open>
  The error map and the rule map are plain objects (\<open>{}\<close> literals) read with \<open>object[name]\<close>.
  Such a read finds the object's own entry or else, for the names that every object
  inherits from \<open>Object.prototype\<close>, the inherited member (a function, or the prototype
  itself for \<open>__proto__\<close>). The association list holds the own entries.

  Five names are reserved and not represented: a write under \<open>__proto__\<close> replaces the
  prototype instead of making an entry, and the proxies of the reactive framework, through
  which the maps are read, answer the four names of their own flags themselves, whatever
  the object holds. The statements about one path of these maps leave the reserved names
  out, and so do the statements about paths into the values, together with the inherited
  names.
\<close>

datatype 'a property = Absent | Own 'a | Inherited

definition objectPrototypeKeys :: "string list" where
  "objectPrototypeKeys =
     [''constructor'', ''__defineGetter__'', ''__defineSetter__'', ''hasOwnProperty'',
      ''__lookupGetter__'', ''__lookupSetter__'', ''isPrototypeOf'', ''propertyIsEnumerable'',
      ''toString'', ''valueOf'', ''__proto__'', ''toLocaleString'']"

definition reactiveFlagKeys :: "string list" where
  "reactiveFlagKeys = [''__v_isReactive'', ''__v_isReadonly'', ''__v_isShallow'', ''__v_raw'']"

definition reservedKeys :: "string list" where
  "reservedKeys = ''__proto__'' # reactiveFlagKeys"

definition readProperty :: "(string \<times> 'a) list \<Rightarrow> string \<Rightarrow> 'a property" where
  "readProperty object name =
     (case map_of object name of
        Some v \<Rightarrow> Own v
      | None \<Rightarrow> if name \<in> set objectPrototypeKeys then Inherited else Absent)"

definition getError :: "string \<Rightarrow> Form \<Rightarrow> string list property" where
  "getError name st = readProperty (fieldErrors (control st)) name"

definition getRule :: "string \<Rightarrow> Form \<Rightarrow> ControlRule property" where
  "getRule name st = readProperty (rules (control st)) name"

text \<open>
  What the validator receives as its rule: nothing, the rule, or an inherited member. An
  inherited member is an object without any of the five members of a rule, which is all
  the validator looks at.
\<close>

definition memberless :: ControlRule where
  "memberless = \<lparr>required = None, minLength = None, maxLength = None,
                  validate = None, pattern = None\<rparr>"

definition ruleArgument :: "ControlRule property \<Rightarrow> ControlRule option" where
  "ruleArgument p = (case p of Absent \<Rightarrow> None | Own rule \<Rightarrow> Some rule | Inherited \<Rightarrow> Some memberless)"

definition setRules :: "ControlRules \<Rightarrow> Form \<Rightarrow> Form" where
  "setRules rs st = st\<lparr>control := (control st)\<lparr>rules := rs\<rparr>\<rparr>"

definition setRule :: "string \<Rightarrow> ControlRule \<Rightarrow> Form \<Rightarrow> Form" where
  "setRule name rule st =
     st\<lparr>control := (control st)\<lparr>rules := AList.update name rule (rules (control st))\<rparr>\<rparr>"

definition clearRule :: "string \<Rightarrow> Form \<Rightarrow> Form" where
  "clearRule name st =
     st\<lparr>control := (control st)\<lparr>rules := AList.delete name (rules (control st))\<rparr>\<rparr>"

definition getIsDirty :: "string \<Rightarrow> Form \<Rightarrow> bool" where
  "getIsDirty name st = (\<not> isEqual (getValue name st) (get (defaultValuesValue st) name))"

definition isDirty :: "Form \<Rightarrow> bool" where
  "isDirty st = (\<not> isEqual (formValuesValue st) (defaultValuesValue st))"

definition isValid :: "Form \<Rightarrow> bool" where
  "isValid st = (\<not> list_ex (\<lambda>(k, v). v \<noteq> []) (fieldErrors (control st)))"

definition getCurrentFieldErrors :: "string \<Rightarrow> Form \<Rightarrow> string list" where
  "getCurrentFieldErrors name st =
     getFieldErrors (getValue name st) (ruleArgument (getRule name st)) (formValuesValue st)"

text \<open>\<open>validateField\<close> returns the errors and leaves the form with the entry stored or deleted.\<close>

definition validateField :: "string \<Rightarrow> Form \<Rightarrow> string list \<times> Form" where
  "validateField name st =
     (let errors = getCurrentFieldErrors name st
      in if errors = [] then ([], clearError name st) else (errors, setError name errors st))"

subsection \<open>\<open>setValue\<close>\<close>

text \<open>The second argument of \<open>setValue\<close> is a value or a function of the previous value.\<close>

datatype valueArg = Value jsval | Updater "jsval \<Rightarrow> jsval"

record SetValueOptions =
  shouldValidate :: "bool option"
  deepValidate :: "bool option"

definition defaultSetValueOptions :: SetValueOptions where
  "defaultSetValueOptions = \<lparr>shouldValidate = Some True, deepValidate = None\<rparr>"

definition newValueOf :: "string \<Rightarrow> valueArg \<Rightarrow> Form \<Rightarrow> jsval" where
  "newValueOf name arg st = (case arg of Updater f \<Rightarrow> f (getValue name st) | Value v \<Rightarrow> v)"

text \<open>\<open>set(control.value.formValues as object, name, newValue)\<close>: the object is changed in place.\<close>

definition assignFormValue :: "string \<Rightarrow> jsval \<Rightarrow> Form \<Rightarrow> Form" where
  "assignFormValue name v st = st\<lparr>store := setAt (formValues (control st)) name v (store st)\<rparr>"

text \<open>
  The options parameter has the default \<open>{ shouldValidate: true }\<close>, which JavaScript uses
  when the argument is missing (\<open>None\<close>).
\<close>

definition setValue :: "string \<Rightarrow> valueArg \<Rightarrow> SetValueOptions option \<Rightarrow> Form \<Rightarrow> Form" where
  "setValue name arg opts st =
     (let options = (case opts of None \<Rightarrow> defaultSetValueOptions | Some opt \<Rightarrow> opt);
          newValue = newValueOf name arg st;
          st1 = assignFormValue name newValue st
      in if shouldValidate options = Some True
            \<and> (reValidateMode (control st1) = ModeAll \<or> reValidateMode (control st1) = ModeOnChange)
         then snd (validateField name st1)
         else st1)"

subsection \<open>\<open>reset\<close>\<close>

definition reset :: "ref \<Rightarrow> Form \<Rightarrow> Form" where
  "reset newDefaults st =
     (let (c, h') = createControl (Some newDefaults) (Some (propsMode (propsReValidateMode st)))
                      (Some (rules (control st))) (store st)
      in st\<lparr>store := h', control := c\<rparr>)"

subsection \<open>\<open>handleSubmit\<close>\<close>

text \<open>
  A callback is represented by what the form can see of it: whether the call (awaited, for
  \<open>onSubmit\<close>) completes or fails with some reason. \<open>handleSubmit\<close> returns how its own
  promise settles, the calls and writes it made, in order, and the form it leaves. The
  interleaving of other operations while \<open>onSubmit\<close> is awaited is not modelled.
\<close>

datatype completion = Fulfilled | Rejected jsval

datatype event =
    SetErrors FieldError
  | OnError FieldError
  | OnSubmit jsval
  | IsSubmitting bool

text \<open>The body of the \<open>forEach\<close> over the rule keys, on the pair \<open>(controlErrors, hasErrors)\<close>.\<close>

definition submitStep :: "Form \<Rightarrow> string \<Rightarrow> FieldError \<times> bool \<Rightarrow> FieldError \<times> bool" where
  "submitStep st key acc =
     (let errors = getCurrentFieldErrors key st
      in if errors \<noteq> [] then (AList.update key errors (fst acc), True) else acc)"

definition handleSubmit ::
  "(jsval \<Rightarrow> completion) option \<Rightarrow> (FieldError \<Rightarrow> completion) option \<Rightarrow> Form
     \<Rightarrow> completion \<times> event list \<times> Form"
where
  "handleSubmit onSubmit onError st =
     (let fieldValues = formValuesValue st;
          (controlErrors, hasErrors) = fold (submitStep st) (objectKeys (rules (control st))) ([], False);
          st1 = setErrors controlErrors st
      in if hasErrors then
           (case onError of
              None \<Rightarrow> (Fulfilled, [SetErrors controlErrors], st1)
            | Some f \<Rightarrow> (f controlErrors, [SetErrors controlErrors, OnError controlErrors], st1))
         else
           (let st2 = st1\<lparr>isSubmitting := True\<rparr>;
                called = (case onSubmit of None \<Rightarrow> [] | Some f \<Rightarrow> [OnSubmit fieldValues]);
                outcome = (case onSubmit of None \<Rightarrow> Fulfilled | Some f \<Rightarrow> f fieldValues);
                st3 = st2\<lparr>isSubmitting := False\<rparr>
            in (outcome, [SetErrors controlErrors, IsSubmitting True] @ called @ [IsSubmitting False], st3)))"

text \<open>
  The error map a submit is expected to install: the rule-bearing paths whose validation
  gives a non-empty list, each with that list.
\<close>

definition failingErrors :: "Form \<Rightarrow> string \<Rightarrow> string list option" where
  "failingErrors st k =
     (if k \<in> fst ` set (rules (control st)) \<and> getCurrentFieldErrors k st \<noteq> []
      then Some (getCurrentFieldErrors k st) else None)"

section \<open>Objects with identity below the top level\<close>

text \<open>
  The store above keeps a whole value in each cell. That is exact as long as no object
  below the top level is reachable from two places, and \<open>createControl\<close> makes the form
  values as a copy that shares nothing. But
  \<open>setValue\<close> stores the value it is given as it is: an object handed to it is afterwards
  part of the form values and of wherever else it was, and a later write through the form
  values changes it in both. For the statements about \<open>setValue\<close> and dirtiness the form is
  therefore modelled a second time, on a heap in which every object and array has a cell of
  its own and an object value is a reference. The names carry an \<open>H\<close>; the functions
  are the same source functions (\<open>get\<close>, \<open>set\<close>, \<open>cloneDeep\<close>, \<open>isEqual\<close> of lodash,
  \<open>createControl\<close>, \<open>useForm\<close>, \<open>getValue\<close>, \<open>validateField\<close>, \<open>setValue\<close>, \<open>getIsDirty\<close>).
\<close>

datatype hval = HUndefined | HNull | HBool bool | HNum int | HStr string | HRef ref

datatype hobj = HObj "(string \<times> hval) list" | HArr "hval list"

record heap =
  objs :: "ref \<Rightarrow> hobj"
  limit :: ref

definition emptyHeap :: heap where
  "emptyHeap = \<lparr>objs = (\<lambda>r. HObj []), limit = 0\<rparr>"

definition allocObj :: "hobj \<Rightarrow> heap \<Rightarrow> ref \<times> heap" where
  "allocObj ob h = (limit h, h\<lparr>objs := (objs h)(limit h := ob), limit := Suc (limit h)\<rparr>)"

text \<open>The values an object holds, and the objects that can be reached from a value.\<close>

definition memberValues :: "hobj \<Rightarrow> hval list" where
  "memberValues ob = (case ob of HObj kvs \<Rightarrow> map snd kvs | HArr xs \<Rightarrow> xs)"

inductive reaches :: "heap \<Rightarrow> hval \<Rightarrow> ref \<Rightarrow> bool" for h :: heap where
  here: "reaches h (HRef r) r"
| step: "w \<in> set (memberValues (objs h r)) \<Longrightarrow> reaches h w r' \<Longrightarrow> reaches h (HRef r) r'"

text \<open>
  The plain value behind a heap value: references are followed, at most \<open>n\<close> deep. The
  depth \<open>Suc (limit h)\<close> is enough for every value without a cycle; a value with a cycle has
  no plain value (\<open>None\<close>) and is outside what is modelled. Deep equality is equality of
  the plain values.
\<close>

fun treeOf :: "nat \<Rightarrow> heap \<Rightarrow> hval \<Rightarrow> jsval option" where
  "treeOf n h HUndefined = Some Undefined"
| "treeOf n h HNull = Some Null"
| "treeOf n h (HBool b) = Some (Bool b)"
| "treeOf n h (HNum i) = Some (Num i)"
| "treeOf n h (HStr s) = Some (Str s)"
| "treeOf 0 h (HRef r) = None"
| "treeOf (Suc n) h (HRef r) =
     (case objs h r of
        HArr xs \<Rightarrow> map_option Arr (those (map (treeOf n h) xs))
      | HObj kvs \<Rightarrow>
          map_option (\<lambda>ts. Obj (fmap_of_list (zip (map fst kvs) ts)))
            (those (map (treeOf n h) (map snd kvs))))"

definition valueTree :: "heap \<Rightarrow> hval \<Rightarrow> jsval option" where
  "valueTree h v = treeOf (Suc (limit h)) h v"

definition isEqualH :: "heap \<Rightarrow> hval \<Rightarrow> hval \<Rightarrow> bool" where
  "isEqualH h a b = (valueTree h a = valueTree h b)"

text \<open>\<open>object[key]\<close>, \<open>baseGet\<close> and \<open>get\<close> on the heap.\<close>

definition getPropH :: "heap \<Rightarrow> hval \<Rightarrow> string \<Rightarrow> hval" where
  "getPropH h object key =
     (case object of
        HRef r \<Rightarrow>
          (case objs h r of
             HObj kvs \<Rightarrow> (case map_of kvs key of None \<Rightarrow> HUndefined | Some v \<Rightarrow> v)
           | HArr xs \<Rightarrow> if isIndex key \<and> indexOf key < length xs then xs ! indexOf key else HUndefined)
      | _ \<Rightarrow> HUndefined)"

fun baseGetH :: "heap \<Rightarrow> hval \<Rightarrow> string list \<Rightarrow> hval" where
  "baseGetH h object [] = object"
| "baseGetH h object (key # keys) =
     (if object = HUndefined \<or> object = HNull then HUndefined
      else baseGetH h (getPropH h object key) keys)"

definition getH :: "heap \<Rightarrow> hval \<Rightarrow> string \<Rightarrow> hval" where
  "getH h object path =
     (if object = HUndefined \<or> object = HNull then HUndefined else baseGetH h object (castPath path))"

text \<open>
  \<open>object[key] = value\<close> changes the object in place. The loop of \<open>baseSet\<close>: an existing
  object on the way is entered as it is (it is not copied and not assigned again); where
  there is none, a new array or object is made, stored under the key and entered. The
  value is stored under the last key as it is, so a reference stays a reference.
\<close>

definition assignValueH :: "heap \<Rightarrow> ref \<Rightarrow> string \<Rightarrow> hval \<Rightarrow> heap" where
  "assignValueH h r key v =
     (case objs h r of
        HObj kvs \<Rightarrow> h\<lparr>objs := (objs h)(r := HObj (AList.update key v kvs))\<rparr>
      | HArr xs \<Rightarrow>
          if isIndex key then
            (if indexOf key < length xs then h\<lparr>objs := (objs h)(r := HArr (xs[indexOf key := v]))\<rparr>
             else h\<lparr>objs := (objs h)(r := HArr (xs @ replicate (indexOf key - length xs) HUndefined @ [v]))\<rparr>)
          else h)"

definition childRef :: "heap \<Rightarrow> ref \<Rightarrow> string \<Rightarrow> ref option" where
  "childRef h r key = (case getPropH h (HRef r) key of HRef r' \<Rightarrow> Some r' | _ \<Rightarrow> None)"

definition newChild :: "heap \<Rightarrow> ref \<Rightarrow> string \<Rightarrow> string \<Rightarrow> ref \<times> heap" where
  "newChild h r key nxt =
     (let (r', h1) = allocObj (if isIndex nxt then HArr [] else HObj []) h
      in (r', assignValueH h1 r key (HRef r')))"

fun setLoopH :: "heap \<Rightarrow> ref \<Rightarrow> string list \<Rightarrow> hval \<Rightarrow> heap" where
  "setLoopH h nested [] v = h"
| "setLoopH h nested [key] v = (if unsafeKey key then h else assignValueH h nested key v)"
| "setLoopH h nested (key # nxt # keys) v =
     (if unsafeKey key then h
      else
        (case childRef h nested key of
           Some r' \<Rightarrow> setLoopH h r' (nxt # keys) v
         | None \<Rightarrow>
             setLoopH (snd (newChild h nested key nxt)) (fst (newChild h nested key nxt))
               (nxt # keys) v))"

definition set_pathH :: "heap \<Rightarrow> hval \<Rightarrow> string \<Rightarrow> hval \<Rightarrow> heap" where
  "set_pathH h object path v =
     (case object of HRef r \<Rightarrow> setLoopH h r (castPath path) v | _ \<Rightarrow> h)"

text \<open>
  The objects that \<open>set\<close> and \<open>get\<close> pass through on a path, and when a write at a path
  can be read back: no key on the way is unsafe and no array is written under a name that
  is not an index.
\<close>

fun pathRefs :: "heap \<Rightarrow> ref \<Rightarrow> string list \<Rightarrow> ref list" where
  "pathRefs h r [] = []"
| "pathRefs h r [key] = [r]"
| "pathRefs h r (key # nxt # keys) =
     r # (case childRef h r key of Some r' \<Rightarrow> pathRefs h r' (nxt # keys) | None \<Rightarrow> [])"

definition accepts :: "heap \<Rightarrow> ref \<Rightarrow> string \<Rightarrow> bool" where
  "accepts h r key = (\<not> unsafeKey key \<and> (case objs h r of HArr xs \<Rightarrow> isIndex key | HObj kvs \<Rightarrow> True))"

fun writableH :: "heap \<Rightarrow> ref \<Rightarrow> string list \<Rightarrow> bool" where
  "writableH h r [] = True"
| "writableH h r [key] = accepts h r key"
| "writableH h r (key # nxt # keys) =
     (accepts h r key
      \<and> (case childRef h r key of
           Some r' \<Rightarrow> writableH h r' (nxt # keys)
         | None \<Rightarrow> list_all (\<lambda>k. \<not> unsafeKey k) (nxt # keys)))"

text \<open>A path whose keys are ordinary names: none that objects inherit, none reserved.\<close>

definition plainPath :: "string list \<Rightarrow> bool" where
  "plainPath keys = list_all (\<lambda>k. k \<notin> set objectPrototypeKeys \<and> k \<notin> set reservedKeys) keys"

text \<open>The plain value handed to the validator (\<open>undefined\<close> stands in for a value with a cycle).\<close>

definition treeOr :: "heap \<Rightarrow> hval \<Rightarrow> jsval" where
  "treeOr h v = (case valueTree h v of Some t \<Rightarrow> t | None \<Rightarrow> Undefined)"

text \<open>
  \<open>cloneDeep\<close>: the copy of an object is made and noted before its members are copied,
  and an object met again is given the copy already made, so that sharing inside the
  original is kept inside the copy. \<open>n\<close> bounds the depth.
\<close>

definition emptyLike :: "hobj \<Rightarrow> hobj" where
  "emptyLike ob = (case ob of HObj kvs \<Rightarrow> HObj [] | HArr xs \<Rightarrow> HArr [])"

definition withValues :: "hobj \<Rightarrow> hval list \<Rightarrow> hobj" where
  "withValues ob vs = (case ob of HObj kvs \<Rightarrow> HObj (zip (map fst kvs) vs) | HArr xs \<Rightarrow> HArr vs)"

fun cloneC :: "nat \<Rightarrow> hval \<Rightarrow> heap \<times> (ref \<times> ref) list \<Rightarrow> hval \<times> heap \<times> (ref \<times> ref) list" where
  "cloneC 0 v hc = (v, hc)"
| "cloneC (Suc n) v hc =
     (case v of
        HRef r \<Rightarrow>
          (case map_of (snd hc) r of
             Some r' \<Rightarrow> (HRef r', hc)
           | None \<Rightarrow>
               (let (r', h1) = allocObj (emptyLike (objs (fst hc) r)) (fst hc);
                    (vs, h2, c2) =
                      fold (\<lambda>w (acc, s). let (w', s') = cloneC n w s in (acc @ [w'], s'))
                        (memberValues (objs (fst hc) r)) ([], (h1, (r, r') # snd hc))
                in (HRef r',
                    (h2\<lparr>objs := (objs h2)(r' := withValues (objs (fst hc) r) vs)\<rparr>, c2))))
      | _ \<Rightarrow> (v, hc))"

definition cloneDeepH :: "ref \<Rightarrow> heap \<Rightarrow> ref \<times> heap" where
  "cloneDeepH r h =
     (case cloneC (Suc (limit h)) (HRef r) (h, []) of
        (HRef r', (h', c)) \<Rightarrow> (r', h')
      | (_, (h', c)) \<Rightarrow> (r, h'))"

text \<open>\<open>createControl\<close> and \<open>useForm\<close> on the heap.\<close>

definition orEmptyObjectH :: "ref option \<Rightarrow> heap \<Rightarrow> ref \<times> heap" where
  "orEmptyObjectH dv h = (case dv of Some r \<Rightarrow> (r, h) | None \<Rightarrow> allocObj (HObj []) h)"

definition createControlH ::
  "ref option \<Rightarrow> ValidationMode option \<Rightarrow> ControlRules option \<Rightarrow> heap \<Rightarrow> CreateControl \<times> heap"
where
  "createControlH dv mode rs h =
     (let (d, h1) = orEmptyObjectH dv h;
          (src, h2) = orEmptyObjectH dv h1;
          (f, h3) = cloneDeepH src h2
      in (\<lparr>defaultValues = d,
           reValidateMode = (case mode of None \<Rightarrow> ModeOnSubmit | Some m \<Rightarrow> m),
           formValues = f,
           fieldErrors = [],
           rules = (case rs of None \<Rightarrow> [] | Some r \<Rightarrow> r)\<rparr>, h3))"

record FormH =
  heapH :: heap
  controlH :: CreateControl
  isSubmittingH :: bool
  propsReValidateModeH :: "ValidationMode option"

definition useFormH :: "ref option \<Rightarrow> ValidationMode option \<Rightarrow> heap \<Rightarrow> FormH" where
  "useFormH propsDefaultValues propsReValidate h =
     (let (c, h') = createControlH propsDefaultValues (Some (propsMode propsReValidate)) None h
      in \<lparr>heapH = h', controlH = c, isSubmittingH = False,
          propsReValidateModeH = propsReValidate\<rparr>)"

text \<open>
  \<open>getValue\<close>, \<open>get(control.value.defaultValues, name)\<close>, \<open>getIsDirty\<close>, \<open>validateField\<close>
  and \<open>setValue\<close> on the heap.
\<close>

definition getValueH :: "string \<Rightarrow> FormH \<Rightarrow> hval" where
  "getValueH name st = getH (heapH st) (HRef (formValues (controlH st))) name"

definition defaultAtH :: "string \<Rightarrow> FormH \<Rightarrow> hval" where
  "defaultAtH name st = getH (heapH st) (HRef (defaultValues (controlH st))) name"

definition getIsDirtyH :: "string \<Rightarrow> FormH \<Rightarrow> bool" where
  "getIsDirtyH name st = (\<not> isEqualH (heapH st) (getValueH name st) (defaultAtH name st))"

definition getCurrentFieldErrorsH :: "string \<Rightarrow> FormH \<Rightarrow> string list" where
  "getCurrentFieldErrorsH name st =
     getFieldErrors (treeOr (heapH st) (getValueH name st))
       (ruleArgument (readProperty (rules (controlH st)) name))
       (treeOr (heapH st) (HRef (formValues (controlH st))))"

definition validateFieldH :: "string \<Rightarrow> FormH \<Rightarrow> string list \<times> FormH" where
  "validateFieldH name st =
     (let errors = getCurrentFieldErrorsH name st
      in if errors = []
         then ([], st\<lparr>controlH := (controlH st)
                        \<lparr>fieldErrors := AList.delete name (fieldErrors (controlH st))\<rparr>\<rparr>)
         else (errors, st\<lparr>controlH := (controlH st)
                        \<lparr>fieldErrors := AList.update name errors (fieldErrors (controlH st))\<rparr>\<rparr>))"

datatype valueArgH = ValueH hval | UpdaterH "hval \<Rightarrow> hval"

definition newValueOfH :: "string \<Rightarrow> valueArgH \<Rightarrow> FormH \<Rightarrow> hval" where
  "newValueOfH name arg st = (case arg of UpdaterH f \<Rightarrow> f (getValueH name st) | ValueH v \<Rightarrow> v)"

definition setValueH :: "string \<Rightarrow> valueArgH \<Rightarrow> SetValueOptions option \<Rightarrow> FormH \<Rightarrow> FormH" where
  "setValueH name arg opts st =
     (let options = (case opts of None \<Rightarrow> defaultSetValueOptions | Some opt \<Rightarrow> opt);
          newValue = newValueOfH name arg st;
          st1 = st\<lparr>heapH := set_pathH (heapH st) (HRef (formValues (controlH st))) name newValue\<rparr>
      in if shouldValidate options = Some True
            \<and> (reValidateMode (controlH st1) = ModeAll \<or> reValidateMode (controlH st1) = ModeOnChange)
         then snd (validateFieldH name st1)
         else st1)"

text \<open>
  Every object a value reaches is below the limit of the heap; the form values and the
  default values of a form have no object in common.
\<close>

definition allocatedH :: "heap \<Rightarrow> hval \<Rightarrow> bool" where
  "allocatedH h v = (\<forall>r. reaches h v r \<longrightarrow> r < limit h)"

definition sharesNothing :: "FormH \<Rightarrow> bool" where
  "sharesNothing st =
     (\<forall>r. reaches (heapH st) (HRef (formValues (controlH st))) r
          \<longrightarrow> \<not> reaches (heapH st) (HRef (defaultValues (controlH st))) r)"

section \<open>Example rules and forms\<close>

text \<open>The pattern \<open>/^[a-z]+$/\<close>.\<close>

definition lowercaseWord :: RegExp where
  "lowercaseWord =
     \<lparr>anchoredStart = True, body = Plus (CharRange CHR ''a'' CHR ''z''), anchoredEnd = True\<rparr>"

definition customCheck :: "jsval \<Rightarrow> jsval \<Rightarrow> string list option" where
  "customCheck v fieldValues = (if v = Null then Some [''custom''] else None)"

definition customRule :: ControlRule where
  "customRule = \<lparr>required = Some True, minLength = Some 5, maxLength = Some 10,
                  validate = Some customCheck, pattern = Some lowercaseWord\<rparr>"

definition strictRule :: ControlRule where
  "strictRule = \<lparr>required = None, minLength = Some 5, maxLength = Some 2,
                  validate = None, pattern = Some lowercaseWord\<rparr>"

definition zeroRule :: ControlRule where
  "zeroRule = \<lparr>required = None, minLength = Some 0, maxLength = Some 0,
                validate = None, pattern = None\<rparr>"

definition requiredRule :: ControlRule where
  "requiredRule = \<lparr>required = Some True, minLength = None, maxLength = None,
                    validate = None, pattern = None\<rparr>"

text \<open>
  A form without default values that revalidates on change, with \<open>name\<close> required; the
  same form after \<open>name\<close> has been filled in.
\<close>

definition invalidForm :: Form where
  "invalidForm = setRule ''name'' requiredRule (useForm None (Some ModeOnChange) emptyStore)"

definition validForm :: Form where
  "validForm = setValue ''name'' (Value (Str ''ada'')) None invalidForm"

text \<open>A form that holds the name \<open>"ada"\<close> under a rule asking for five characters.\<close>

definition fiveRule :: ControlRule where
  "fiveRule = \<lparr>required = Some True, minLength = Some 5, maxLength = None,
                validate = None, pattern = None\<rparr>"

definition shortNameForm :: Form where
  "shortNameForm =
     setRule ''name'' fiveRule
       (setValue ''name'' (Value (Str ''ada'')) None (useForm None None emptyStore))"

definition failingSubmit :: "jsval \<Rightarrow> completion" where
  "failingSubmit v = Rejected (Str ''boom'')"

definition ignoreErrors :: "FieldError \<Rightarrow> completion" where
  "ignoreErrors errors = Fulfilled"

text \<open>
  The first form after an empty \<open>name\<close> has been entered (which stores the required error)
  and the caller has made a new object \<open>{a: 1}\<close>, at reference 3.
\<close>

definition editedForm :: Form where
  "editedForm =
     (let st = setValue ''name'' (Value (Str [])) None invalidForm
      in st\<lparr>store := snd (alloc (Obj (fmupd ''a'' (Num 1) fmempty)) (store st))\<rparr>)"

text \<open>A caller's object \<open>{name: "ada"}\<close>, at reference 0, and the form made from it.\<close>

definition callerStore :: store where
  "callerStore = snd (alloc (Obj (fmupd ''name'' (Str ''ada'') fmempty)) emptyStore)"

definition callerForm :: Form where
  "callerForm = useForm (Some 0) None callerStore"

text \<open>
  The caller's default values \<open>{address: {street: "a"}}\<close>: the inner object at reference 0,
  the outer one at reference 1. The form made from them; that form after the caller has
  set \<open>address\<close> to the default values' own \<open>address\<close> object; and the first form after
  \<open>address.street\<close> has been set to \<open>"b"\<close>.
\<close>

definition addressHeap :: heap where
  "addressHeap =
     snd (allocObj (HObj [(''address'', HRef 0)])
       (snd (allocObj (HObj [(''street'', HStr ''a'')]) emptyHeap)))"

definition addressForm :: FormH where
  "addressForm = useFormH (Some 1) None addressHeap"

definition revertedForm :: FormH where
  "revertedForm = setValueH ''address'' (ValueH (HRef 0)) None addressForm"

definition changedForm :: FormH where
  "changedForm = setValueH ''address.street'' (ValueH (HStr ''b'')) None addressForm"

section \<open>Evaluating the model\<close>

lemmas example_defs = customRule_def customCheck_def strictRule_def zeroRule_def requiredRule_def
  lowercaseWord_def invalidForm_def validForm_def failingSubmit_def ignoreErrors_def
  callerStore_def callerForm_def fiveRule_def shortNameForm_def

lemmas validator_defs = getFieldErrors_def customValidation_def valueLength_def optToString_def
  pushMaxLength_def pushMinLength_def pushPattern_def maxLengthMessage_def minLengthMessage_def
  patternMessage_def requiredMessage_def numberToString_def natToString.simps digitChar_def
  RegExp_test_def testSubject_def Plus_def

lemmas form_defs = useForm_def createControl_def orEmptyObject_def alloc_def cloneDeep_def
  emptyStore_def propsMode_def setRule_def getCurrentFieldErrors_def getValue_def getRule_def
  formValuesValue_def defaultValuesValue_def get_def set_path_def baseSet_def castPath_def
  getProp_def isNullish_def isObject_def assignValue_def unsafeKey_def setValue_def
  assignFormValue_def setAt_def mutate_def newValueOf_def defaultSetValueOptions_def
  validateField_def clearError_def setError_def getError_def setErrors_def
  readProperty_def ruleArgument_def memberless_def objectPrototypeKeys_def

lemma jsString_example:
  "jsString (Arr [Num 12, Null, Str ''ab'', Arr [Num (- 305), Bool True], Obj fmempty])
     = ''12,,ab,-305,true,[object Object]''"
  by (simp add: numberToString_def natToString.simps digitChar_def)

lemma RegExp_test_examples:
  "RegExp_test lowercaseWord ''abc''"
  "\<not> RegExp_test lowercaseWord ''ab1''"
  "\<not> RegExp_test lowercaseWord []"
  "RegExp_test \<lparr>anchoredStart = False, body = Lit CHR ''@'', anchoredEnd = False\<rparr> ''a@b''"
  by (simp_all add: RegExp_test_def lowercaseWord_def Plus_def)

lemma castPath_examples:
  "castPath ''name'' = [''name'']"
  "castPath ''address.street'' = [''address'', ''street'']"
  "castPath ''todos.0'' = [''todos'', ''0'']"
  "castPath ''todos.[1].title'' = [''todos'', ''1'', ''title'']"
  "castPath ''todos[1].title'' = [''todos'', ''1'', ''title'']"
  by (simp_all add: castPath_def segmentKeys_def)

lemma set_path_example:
  "set_path (Obj fmempty) ''todos.[1].title'' (Str ''x'')
     = Obj (fmupd ''todos'' (Arr [Undefined, Obj (fmupd ''title'' (Str ''x'') fmempty)]) fmempty)"
  by (simp add: set_path_def baseSet_def castPath_def segmentKeys_def isNullish_def isObject_def
      unsafeKey_def getProp_def assignValue_def isDigit_def indexOf_def Let_def)

lemma get_examples:
  "get (Obj (fmupd ''todos'' (Arr [Undefined, Obj (fmupd ''title'' (Str ''x'') fmempty)]) fmempty))
     ''todos.1.title'' = Str ''x''"
  "get (Obj (fmupd ''todos'' (Arr [Undefined, Obj (fmupd ''title'' (Str ''x'') fmempty)]) fmempty))
     ''todos.0.title'' = Undefined"
  by (simp_all add: get_def castPath_def segmentKeys_def isNullish_def getProp_def isDigit_def
      indexOf_def)

lemma objectKeys_example:
  "objectKeys [(''name'', a), (''10'', b), (''2'', c), (''email'', d)]
     = [''2'', ''10'', ''name'', ''email'']"
  by (simp add: objectKeys_def isDigit_def indexOf_def)

lemma invalidForm_errors: "getCurrentFieldErrors ''name'' invalidForm = [''Field is required!'']"
  by (simp add: example_defs validator_defs form_defs)

lemma invalidForm_rules: "rules (control invalidForm) = [(''name'', requiredRule)]"
  by (simp add: example_defs form_defs)

lemma invalidForm_control:
  "reValidateMode (control invalidForm) = ModeOnChange"
  "fieldErrors (control invalidForm) = []"
  by (simp_all add: example_defs form_defs)

lemma validForm_errors: "getCurrentFieldErrors ''name'' validForm = []"
  by (simp add: example_defs validator_defs form_defs)

lemma validForm_rules: "rules (control validForm) = [(''name'', requiredRule)]"
  by (simp add: example_defs form_defs Let_def)

lemma validForm_value: "formValuesValue validForm = Obj (fmupd ''name'' (Str ''ada'') fmempty)"
  by (simp add: example_defs form_defs validator_defs Let_def)


lemma callerForm_values:
  "formValues (control callerForm) = 1"
  "defaultValues (control callerForm) = 0"
  "formValuesValue callerForm = Obj (fmupd ''name'' (Str ''ada'') fmempty)"
  "defaultValuesValue callerForm = Obj (fmupd ''name'' (Str ''ada'') fmempty)"
  by (simp_all add: example_defs form_defs)

section \<open>The validator's results\<close>

lemma valueLength_nonneg: "0 \<le> valueLength v"
  by (simp add: valueLength_def split: option.split)

lemma maxLengthMessage_neq:
  "maxLengthMessage n \<noteq> minLengthMessage m"
  "maxLengthMessage n \<noteq> patternMessage"
  "maxLengthMessage n \<noteq> requiredMessage"
  by (simp_all add: maxLengthMessage_def minLengthMessage_def patternMessage_def requiredMessage_def)

lemma minLengthMessage_neq:
  "minLengthMessage n \<noteq> maxLengthMessage m"
  "minLengthMessage n \<noteq> patternMessage"
  "minLengthMessage n \<noteq> requiredMessage"
  by (simp_all add: maxLengthMessage_def minLengthMessage_def patternMessage_def requiredMessage_def)

text \<open>
  Claim C1. Without a rule the validator returns the empty list. With a rule whose
  \<open>validate\<close> returns a list, that list is the result, whatever the built-in members of
  the rule say. Otherwise (no \<open>validate\<close>, or one that returns \<open>undefined\<close>), when \<open>required\<close>
  is true and the length of the value's string form is 0 (a nullish value has length 0),
  the result is exactly \<open>["Field is required!"]\<close>, whatever \<open>maxLength\<close>, \<open>minLength\<close> and
  \<open>pattern\<close> are.
\<close>

theorem getFieldErrors_short_circuits:
  "getFieldErrors v None s = []
   \<and> (\<forall>f errs. validate r = Some f \<and> f v s = Some errs \<longrightarrow> getFieldErrors v (Some r) s = errs)
   \<and> ((validate r = None \<or> (\<exists>f. validate r = Some f \<and> f v s = None))
        \<and> required r = Some True \<and> valueLength v = 0
        \<longrightarrow> getFieldErrors v (Some r) s = [''Field is required!''])"
  by (auto simp: getFieldErrors_def customValidation_def requiredMessage_def)

theorem getFieldErrors_short_circuits_witness:
  "validate customRule = Some customCheck \<and> customCheck Null Undefined = Some [''custom'']
   \<and> getFieldErrors Null (Some customRule) Undefined = [''custom'']
   \<and> customCheck (Str []) Undefined = None \<and> required customRule = Some True
   \<and> valueLength (Str []) = 0
   \<and> getFieldErrors (Str []) (Some customRule) Undefined = [''Field is required!'']"
  using getFieldErrors_short_circuits [of Null Undefined customRule]
    getFieldErrors_short_circuits [of "Str []" Undefined customRule]
  by (simp add: customRule_def customCheck_def valueLength_def optToString_def)

text \<open>
  Claim C2. When no custom validation result applies and the required-and-empty case does
  not, the result is the concatenation, in this order, of the \<open>maxLength\<close> message, the
  \<open>minLength\<close> message and the pattern message, each present exactly when its check
  applies and fails: the value is longer than a \<open>maxLength\<close> that is set and not 0, shorter
  than a \<open>minLength\<close> that is set, and its string form fails a pattern that is set. For
  \<open>minLength = 5\<close>, \<open>maxLength = 10\<close>, the pattern \<open>/^[a-z]+$/\<close> and the value \<open>"ab1"\<close> the
  result is exactly the too-short message followed by the pattern message.
\<close>

theorem getFieldErrors_builtin_checks:
  "(customValidation r v s = None \<and> \<not> (required r = Some True \<and> valueLength v = 0) \<longrightarrow>
     getFieldErrors v (Some r) s =
       (case maxLength r of
          Some n \<Rightarrow> if n \<noteq> 0 \<and> valueLength v > n then [maxLengthMessage n] else []
        | None \<Rightarrow> [])
       @ (case minLength r of
            Some n \<Rightarrow> if valueLength v < n then [minLengthMessage n] else []
          | None \<Rightarrow> [])
       @ (case pattern r of
            Some p \<Rightarrow> if \<not> RegExp_test p (testSubject v) then [patternMessage] else []
          | None \<Rightarrow> []))
   \<and> getFieldErrors (Str ''ab1'')
        (Some \<lparr>required = rq, minLength = Some 5, maxLength = Some 10, validate = None,
               pattern = Some lowercaseWord\<rparr>) s
       = [''The field may not be shorter than 5 characters!'',
          ''The field did not match the expected pattern!'']"
proof (intro conjI impI)
  assume a: "customValidation r v s = None \<and> \<not> (required r = Some True \<and> valueLength v = 0)"
  show "getFieldErrors v (Some r) s =
       (case maxLength r of
          Some n \<Rightarrow> if n \<noteq> 0 \<and> valueLength v > n then [maxLengthMessage n] else []
        | None \<Rightarrow> [])
       @ (case minLength r of
            Some n \<Rightarrow> if valueLength v < n then [minLengthMessage n] else []
          | None \<Rightarrow> [])
       @ (case pattern r of
            Some p \<Rightarrow> if \<not> RegExp_test p (testSubject v) then [patternMessage] else []
          | None \<Rightarrow> [])"
    using a valueLength_nonneg [of v]
    by (auto simp: getFieldErrors_def pushMaxLength_def pushMinLength_def pushPattern_def Let_def
        split: option.split)
next
  show "getFieldErrors (Str ''ab1'')
        (Some \<lparr>required = rq, minLength = Some 5, maxLength = Some 10, validate = None,
               pattern = Some lowercaseWord\<rparr>) s
       = [''The field may not be shorter than 5 characters!'',
          ''The field did not match the expected pattern!'']"
    by (simp add: validator_defs lowercaseWord_def)
qed

theorem getFieldErrors_builtin_checks_witness:
  "customValidation strictRule (Str ''ab1'') Undefined = None
   \<and> \<not> (required strictRule = Some True \<and> valueLength (Str ''ab1'') = 0)
   \<and> getFieldErrors (Str ''ab1'') (Some strictRule) Undefined
       = [''The field may not be longer than 2 characters!'',
          ''The field may not be shorter than 5 characters!'',
          ''The field did not match the expected pattern!'']"
  using getFieldErrors_builtin_checks [of strictRule "Str ''ab1''" Undefined]
  by (simp add: strictRule_def lowercaseWord_def customValidation_def valueLength_def
      optToString_def maxLengthMessage_def minLengthMessage_def patternMessage_def
      numberToString_def natToString.simps digitChar_def RegExp_test_def testSubject_def Plus_def)

text \<open>
  Claim C9. A bound of 0 is treated as if the bound were not set: a rule with
  \<open>maxLength = 0\<close> (or \<open>minLength = 0\<close>) gives, for every value, the same result as the rule
  without that bound. So when the built-in checks run under a zero bound, the result holds
  no "may not be longer" (or "may not be shorter") message, however long the value is.
\<close>

theorem zero_bound_is_no_bound:
  "getFieldErrors v (Some (r\<lparr>maxLength := Some 0\<rparr>)) s
     = getFieldErrors v (Some (r\<lparr>maxLength := None\<rparr>)) s
   \<and> getFieldErrors v (Some (r\<lparr>minLength := Some 0\<rparr>)) s
       = getFieldErrors v (Some (r\<lparr>minLength := None\<rparr>)) s
   \<and> (customValidation r v s = None \<and> maxLength r = Some 0
        \<longrightarrow> (\<forall>n. maxLengthMessage n \<notin> set (getFieldErrors v (Some r) s)))
   \<and> (customValidation r v s = None \<and> minLength r = Some 0
        \<longrightarrow> (\<forall>n. minLengthMessage n \<notin> set (getFieldErrors v (Some r) s)))"
proof (intro conjI impI allI)
  show "getFieldErrors v (Some (r\<lparr>maxLength := Some 0\<rparr>)) s
          = getFieldErrors v (Some (r\<lparr>maxLength := None\<rparr>)) s"
    by (simp add: getFieldErrors_def customValidation_def pushMaxLength_def pushMinLength_def
        pushPattern_def Let_def split: option.split)
next
  show "getFieldErrors v (Some (r\<lparr>minLength := Some 0\<rparr>)) s
          = getFieldErrors v (Some (r\<lparr>minLength := None\<rparr>)) s"
    by (simp add: getFieldErrors_def customValidation_def pushMaxLength_def pushMinLength_def
        pushPattern_def Let_def split: option.split)
next
  fix n
  assume "customValidation r v s = None \<and> maxLength r = Some 0"
  then show "maxLengthMessage n \<notin> set (getFieldErrors v (Some r) s)"
    by (auto simp: getFieldErrors_def pushMaxLength_def pushMinLength_def
        pushPattern_def Let_def maxLengthMessage_neq split: option.split)
next
  fix n
  assume "customValidation r v s = None \<and> minLength r = Some 0"
  then show "minLengthMessage n \<notin> set (getFieldErrors v (Some r) s)"
    by (auto simp: getFieldErrors_def pushMaxLength_def pushMinLength_def
        pushPattern_def Let_def minLengthMessage_neq split: option.split)
qed

theorem zero_bound_is_no_bound_witness:
  "customValidation zeroRule (Str ''abc'') Undefined = None
   \<and> maxLength zeroRule = Some 0 \<and> minLength zeroRule = Some 0
   \<and> 0 < valueLength (Str ''abc'')
   \<and> maxLengthMessage 0 \<notin> set (getFieldErrors (Str ''abc'') (Some zeroRule) Undefined)
   \<and> minLengthMessage 0 \<notin> set (getFieldErrors (Str ''abc'') (Some zeroRule) Undefined)"
proof -
  have h: "customValidation zeroRule (Str ''abc'') Undefined = None
     \<and> maxLength zeroRule = Some 0 \<and> minLength zeroRule = Some 0
     \<and> 0 < valueLength (Str ''abc'')"
    by (simp add: zeroRule_def customValidation_def valueLength_def optToString_def)
  from zero_bound_is_no_bound [of "Str ''abc''" zeroRule Undefined] h
  show ?thesis by blast
qed

section \<open>Validating one field\<close>

lemma shortNameForm_state:
  "rules (control shortNameForm) = [(''name'', fiveRule)]"
  "fieldErrors (control shortNameForm) = []"
  "getValue ''name'' shortNameForm = Str ''ada''"
  "getCurrentFieldErrors ''name'' shortNameForm = [''The field may not be shorter than 5 characters!'']"
  "getCurrentFieldErrors ''email'' shortNameForm = []"
  "getCurrentFieldErrors ''toString'' shortNameForm = []"
  by (simp_all add: example_defs form_defs validator_defs Let_def)

text \<open>
  Claim C5, as the code has it. \<open>validateField(path)\<close> returns what the validator gives for
  the current value at the path, what \<open>rules[path]\<close> reads and the whole of the current form
  values. When that list is empty, the entry of the path is removed from the error map and
  the empty list is returned; otherwise the list is stored under the path and returned.
  Entries of other paths are left alone. This is stated for every path whose name is not
  reserved. Hence for such a path without a rule of its own the
  result is empty and the error map has no entry of its own for the path afterwards, so
  that \<open>getError(path)\<close> is absent, unless the path is one of the names every object
  inherits, for which \<open>getError(path)\<close> is the inherited member.
\<close>

theorem validateField_stores_or_clears:
  assumes "name \<notin> set reservedKeys"
  shows "fst (validateField name st)
     = getFieldErrors (getValue name st) (ruleArgument (getRule name st)) (formValuesValue st)
   \<and> (fst (validateField name st) = [] \<longrightarrow>
        fieldErrors (control (snd (validateField name st)))
          = AList.delete name (fieldErrors (control st))
        \<and> map_of (fieldErrors (control (snd (validateField name st)))) name = None)
   \<and> (fst (validateField name st) \<noteq> [] \<longrightarrow>
        getError name (snd (validateField name st)) = Own (fst (validateField name st)))
   \<and> (\<forall>other. other \<noteq> name \<longrightarrow>
        getError other (snd (validateField name st)) = getError other st)
   \<and> ((\<forall>rule. getRule name st \<noteq> Own rule) \<longrightarrow>
        fst (validateField name st) = []
        \<and> map_of (fieldErrors (control (snd (validateField name st)))) name = None
        \<and> getError name (snd (validateField name st))
            = (if name \<in> set objectPrototypeKeys then Inherited else Absent))"
proof -
  have none: "(\<forall>rule. getRule name st \<noteq> Own rule) \<Longrightarrow> getCurrentFieldErrors name st = []"
    by (cases "getRule name st")
      (simp_all add: getCurrentFieldErrors_def ruleArgument_def memberless_def getFieldErrors_def
        customValidation_def valueLength_def pushMaxLength_def pushMinLength_def pushPattern_def
        Let_def)
  show ?thesis
    using none
    by (auto simp: validateField_def getCurrentFieldErrors_def Let_def getError_def
        readProperty_def clearError_def setError_def update_conv' delete_conv')
qed

theorem validateField_stores_or_clears_witness:
  "''email'' \<notin> set reservedKeys \<and> ''name'' \<notin> set reservedKeys
   \<and> getRule ''email'' shortNameForm = Absent
   \<and> fst (validateField ''email'' shortNameForm) = []
   \<and> getError ''email'' (snd (validateField ''email'' shortNameForm)) = Absent
   \<and> getValue ''name'' shortNameForm = Str ''ada''
   \<and> getRule ''name'' shortNameForm = Own fiveRule
   \<and> fst (validateField ''name'' shortNameForm)
       = [''The field may not be shorter than 5 characters!'']
   \<and> getError ''name'' (snd (validateField ''name'' shortNameForm))
       = Own [''The field may not be shorter than 5 characters!'']"
proof -
  have k: "''email'' \<notin> set reservedKeys" "''name'' \<notin> set reservedKeys"
    by (simp_all add: reservedKeys_def reactiveFlagKeys_def)
  have r: "getRule ''email'' shortNameForm = Absent" "getRule ''name'' shortNameForm = Own fiveRule"
    by (simp_all add: getRule_def readProperty_def shortNameForm_state objectPrototypeKeys_def)
  have n: "fst (validateField ''name'' shortNameForm)
             = [''The field may not be shorter than 5 characters!'']"
    by (simp add: validateField_def shortNameForm_state Let_def)
  have ne: "fst (validateField ''name'' shortNameForm) \<noteq> []"
    by (simp add: n)
  have nr: "\<forall>rule. getRule ''email'' shortNameForm \<noteq> Own rule"
    by (simp add: r)
  from validateField_stores_or_clears [OF k(1), of shortNameForm] nr
  have e: "fst (validateField ''email'' shortNameForm) = []
     \<and> getError ''email'' (snd (validateField ''email'' shortNameForm))
         = (if ''email'' \<in> set objectPrototypeKeys then Inherited else Absent)"
    by blast
  from validateField_stores_or_clears [OF k(2), of shortNameForm] ne
  have "getError ''name'' (snd (validateField ''name'' shortNameForm))
         = Own (fst (validateField ''name'' shortNameForm))"
    by blast
  with k r e n show ?thesis
    by (simp add: shortNameForm_state objectPrototypeKeys_def)
qed

text \<open>
  Against claim C5 as it is worded (for every path without a rule, \<open>getError(path)\<close> stays
  absent): the form has no rule for \<open>toString\<close>, \<open>validateField("toString")\<close> returns the
  empty list, and \<open>getError("toString")\<close> is not absent afterwards: it reads the member that
  the error map inherits.
\<close>

theorem validateField_inherited_name_not_absent:
  "map_of (rules (control shortNameForm)) ''toString'' = None
   \<and> fst (validateField ''toString'' shortNameForm) = []
   \<and> getError ''toString'' (snd (validateField ''toString'' shortNameForm)) = Inherited
   \<and> getError ''toString'' (snd (validateField ''toString'' shortNameForm)) \<noteq> Absent"
  by (simp add: validateField_def shortNameForm_state Let_def getError_def readProperty_def
      clearError_def objectPrototypeKeys_def)

section \<open>Submitting\<close>

lemma set_objectKeys: "set (objectKeys al) = fst ` set al"
  by (auto simp: objectKeys_def Let_def)

text \<open>What the loop over the rule keys leaves in \<open>controlErrors\<close> and \<open>hasErrors\<close>.\<close>

lemma fold_submitStep:
  "fold (submitStep st) ks acc = (ce, he) \<Longrightarrow>
     map_of ce = (\<lambda>k. if k \<in> set ks \<and> getCurrentFieldErrors k st \<noteq> []
                      then Some (getCurrentFieldErrors k st) else map_of (fst acc) k)
     \<and> (he \<longleftrightarrow> snd acc \<or> (\<exists>k \<in> set ks. getCurrentFieldErrors k st \<noteq> []))"
proof (induction ks arbitrary: acc)
  case Nil
  then show ?case by auto
next
  case (Cons k ks)
  from Cons.prems have "fold (submitStep st) ks (submitStep st k acc) = (ce, he)"
    by simp
  from Cons.IH [OF this] show ?case
    by (auto simp: submitStep_def Let_def update_conv' fun_eq_iff split: if_splits)
qed

lemma fold_submitStep_clean:
  "\<forall>k \<in> set ks. getCurrentFieldErrors k st = [] \<Longrightarrow> fold (submitStep st) ks acc = acc"
  by (induction ks arbitrary: acc) (simp_all add: submitStep_def)

text \<open>
  Claim C3. When at least one path with a rule fails validation, \<open>handleSubmit\<close> does two
  things and no more: it calls \<open>setErrors\<close> with the map \<open>ce\<close> that holds exactly the
  failing paths, each with its errors, and it calls \<open>onError\<close> with that same map (nothing,
  when \<open>onError\<close> is not given). \<open>onSubmit\<close> is not called, \<open>isSubmitting\<close> is never written
  and so stays as it was, and \<open>ce\<close> replaces the whole error map of the form.
\<close>

theorem handleSubmit_rejects_invalid_form:
  assumes "\<exists>k \<in> fst ` set (rules (control st)). getCurrentFieldErrors k st \<noteq> []"
  shows "\<exists>ce. map_of ce = failingErrors st
            \<and> handleSubmit onSubmit (Some onError) st
                = (onError ce, [SetErrors ce, OnError ce], setErrors ce st)
            \<and> handleSubmit onSubmit None st = (Fulfilled, [SetErrors ce], setErrors ce st)
            \<and> fieldErrors (control (setErrors ce st)) = ce
            \<and> isSubmitting (setErrors ce st) = isSubmitting st"
proof -
  obtain ce he
    where f: "fold (submitStep st) (objectKeys (rules (control st))) ([], False) = (ce, he)"
    by (cases "fold (submitStep st) (objectKeys (rules (control st))) ([], False)")
  from fold_submitStep [OF f] assms have m: "map_of ce = failingErrors st" and he: he
    by (auto simp: set_objectKeys failingErrors_def fun_eq_iff)
  have "handleSubmit onSubmit (Some onError) st
          = (onError ce, [SetErrors ce, OnError ce], setErrors ce st)"
    and "handleSubmit onSubmit None st = (Fulfilled, [SetErrors ce], setErrors ce st)"
    using f he by (simp_all add: handleSubmit_def Let_def)
  with m show ?thesis
    by (intro exI [of _ ce]) (simp add: setErrors_def)
qed

theorem handleSubmit_rejects_invalid_form_witness:
  "(\<exists>k \<in> fst ` set (rules (control invalidForm)). getCurrentFieldErrors k invalidForm \<noteq> [])
   \<and> (\<exists>ce. map_of ce = failingErrors invalidForm
            \<and> handleSubmit (Some failingSubmit) (Some ignoreErrors) invalidForm
                = (ignoreErrors ce, [SetErrors ce, OnError ce], setErrors ce invalidForm)
            \<and> handleSubmit (Some failingSubmit) None invalidForm
                = (Fulfilled, [SetErrors ce], setErrors ce invalidForm)
            \<and> fieldErrors (control (setErrors ce invalidForm)) = ce
            \<and> isSubmitting (setErrors ce invalidForm) = isSubmitting invalidForm)"
proof -
  have h: "\<exists>k \<in> fst ` set (rules (control invalidForm)). getCurrentFieldErrors k invalidForm \<noteq> []"
    by (simp add: invalidForm_rules invalidForm_errors)
  from handleSubmit_rejects_invalid_form [OF h, of "Some failingSubmit" ignoreErrors] h
  show ?thesis by blast
qed

text \<open>
  Claim C4. When every path with a rule validates with an empty list, \<open>handleSubmit\<close> calls
  \<open>setErrors\<close> with the empty map, sets \<open>isSubmitting\<close> to true, calls \<open>onSubmit\<close> with the
  current form values, and sets \<open>isSubmitting\<close> back to false, in this order; its own
  promise settles as the awaited \<open>onSubmit\<close> does. In particular, when \<open>onSubmit\<close> fails, the
  failure is passed on to the caller and \<open>isSubmitting\<close> is false afterwards all the same.
\<close>

theorem handleSubmit_submits_valid_form:
  assumes "\<forall>k \<in> fst ` set (rules (control st)). getCurrentFieldErrors k st = []"
  shows "handleSubmit (Some onSubmit) onError st
           = (onSubmit (formValuesValue st),
              [SetErrors [], IsSubmitting True, OnSubmit (formValuesValue st), IsSubmitting False],
              (setErrors [] st)\<lparr>isSubmitting := False\<rparr>)
         \<and> (\<forall>e. onSubmit (formValuesValue st) = Rejected e \<longrightarrow>
               fst (handleSubmit (Some onSubmit) onError st) = Rejected e
               \<and> \<not> isSubmitting (snd (snd (handleSubmit (Some onSubmit) onError st))))"
proof -
  have "fold (submitStep st) (objectKeys (rules (control st))) ([], False) = ([], False)"
    using assms by (intro fold_submitStep_clean) (simp add: set_objectKeys)
  then show ?thesis
    by (simp add: handleSubmit_def Let_def)
qed

theorem handleSubmit_submits_valid_form_witness:
  "rules (control validForm) = [(''name'', requiredRule)]
   \<and> getCurrentFieldErrors ''name'' validForm = []
   \<and> handleSubmit (Some failingSubmit) (Some ignoreErrors) validForm
       = (Rejected (Str ''boom''),
          [SetErrors [], IsSubmitting True,
           OnSubmit (Obj (fmupd ''name'' (Str ''ada'') fmempty)), IsSubmitting False],
          (setErrors [] validForm)\<lparr>isSubmitting := False\<rparr>)"
proof -
  have h: "\<forall>k \<in> fst ` set (rules (control validForm)). getCurrentFieldErrors k validForm = []"
    by (simp add: validForm_rules validForm_errors)
  from handleSubmit_submits_valid_form [OF h, of failingSubmit "Some ignoreErrors"]
  show ?thesis by (simp add: validForm_value validForm_rules validForm_errors failingSubmit_def)
qed

section \<open>Creating and resetting the control record\<close>




text \<open>
  Claim C6. After \<open>reset(newDefaults)\<close> the control is a new record: the form values and
  the default values both have the value of \<open>newDefaults\<close>, the error map is empty, the rule
  map is the one from before the reset, and \<open>isDirty\<close> is false.
\<close>

theorem reset_fresh_record:
  "formValuesValue (reset a st) = cells (store st) a
   \<and> defaultValuesValue (reset a st) = cells (store st) a
   \<and> fieldErrors (control (reset a st)) = []
   \<and> rules (control (reset a st)) = rules (control st)
   \<and> \<not> isDirty (reset a st)"
  by (simp add: reset_def createControl_def orEmptyObject_def alloc_def cloneDeep_def Let_def
      formValuesValue_def defaultValuesValue_def isDirty_def isEqual_def)

theorem reset_fresh_record_witness:
  "isDirty editedForm
   \<and> fieldErrors (control editedForm) = [(''name'', [''Field is required!''])]
   \<and> formValuesValue (reset 3 editedForm) = Obj (fmupd ''a'' (Num 1) fmempty)
   \<and> defaultValuesValue (reset 3 editedForm) = Obj (fmupd ''a'' (Num 1) fmempty)
   \<and> fieldErrors (control (reset 3 editedForm)) = []
   \<and> rules (control (reset 3 editedForm)) = [(''name'', requiredRule)]
   \<and> \<not> isDirty (reset 3 editedForm)"
proof -
  have e: "isDirty editedForm"
    "fieldErrors (control editedForm) = [(''name'', [''Field is required!''])]"
    "rules (control editedForm) = [(''name'', requiredRule)]"
    "cells (store editedForm) 3 = Obj (fmupd ''a'' (Num 1) fmempty)"
    by (simp_all add: editedForm_def example_defs form_defs validator_defs isDirty_def
        isEqual_def Let_def)
  from reset_fresh_record [of 3 editedForm] e
  show ?thesis by simp
qed

section \<open>Writing and reading on the heap\<close>

lemma assignValueH_top [simp]: "limit (assignValueH h r key v) = limit h"
  by (simp add: assignValueH_def split: hobj.split)

lemma assignValueH_other: "r' \<noteq> r \<Longrightarrow> objs (assignValueH h r key v) r' = objs h r'"
  by (simp add: assignValueH_def split: hobj.split)

lemma newChild_props:
  "fst (newChild h r key nxt) = limit h"
  "limit (snd (newChild h r key nxt)) = Suc (limit h)"
  "r' \<noteq> r \<Longrightarrow> r' \<noteq> limit h \<Longrightarrow> objs (snd (newChild h r key nxt)) r' = objs h r'"
  "r \<noteq> limit h \<Longrightarrow> objs (snd (newChild h r key nxt)) (limit h) = (if isIndex nxt then HArr [] else HObj [])"
  by (simp_all add: newChild_def allocObj_def assignValueH_other split: prod.split)

lemma getPropH_assignValueH:
  "(case objs h r of HArr xs \<Rightarrow> isIndex key | HObj kvs \<Rightarrow> True) \<Longrightarrow>
     getPropH (assignValueH h r key v) (HRef r) key = v"
  by (auto simp: getPropH_def assignValueH_def update_conv' nth_append split: hobj.split)

lemma setLoopH_top: "limit h \<le> limit (setLoopH h r keys v)"
proof (induction h r keys v rule: setLoopH.induct)
  case (3 h nested key nxt keys v)
  show ?case
  proof (cases "unsafeKey key")
    case True then show ?thesis by simp
  next
    case False
    show ?thesis
    proof (cases "childRef h nested key")
      case None
      from "3.IH"(1) [OF False None] show ?thesis
        using False None by (simp add: newChild_props)
    next
      case (Some r')
      from "3.IH"(2) [OF False Some] show ?thesis
        using False Some by simp
    qed
  qed
qed simp_all

lemma pathRefs_fresh_child:
  "objs h r = HObj [] \<or> objs h r = HArr [] \<Longrightarrow> keys \<noteq> [] \<Longrightarrow> pathRefs h r keys = [r]"
proof (cases keys)
  case Nil
  then show "keys \<noteq> [] \<Longrightarrow> ?thesis" by simp
next
  case (Cons k ks)
  assume "objs h r = HObj [] \<or> objs h r = HArr []"
  then show ?thesis
    using Cons by (cases ks) (auto simp: childRef_def getPropH_def)
qed

lemma setLoopH_frame:
  "\<forall>x \<in> set (pathRefs h root keys). x < limit h \<Longrightarrow> r < limit h \<Longrightarrow>
     r \<notin> set (pathRefs h root keys) \<Longrightarrow> objs (setLoopH h root keys v) r = objs h r"
proof (induction h root keys v rule: setLoopH.induct)
  case (1 h nested v)
  then show ?case by simp
next
  case (2 h nested key v)
  then show ?case by (simp add: assignValueH_other)
next
  case (3 h nested key nxt keys v)
  show ?case
  proof (cases "unsafeKey key")
    case True then show ?thesis by simp
  next
    case False
    show ?thesis
    proof (cases "childRef h nested key")
      case (Some r')
      from "3.IH"(2) [OF False Some] "3.prems" Some False
      show ?thesis by simp
    next
      case None
      let ?h2 = "snd (newChild h nested key nxt)"
      let ?rn = "fst (newChild h nested key nxt)"
      have rn: "?rn = limit h" by (simp add: newChild_props)
      have t2: "limit ?h2 = Suc (limit h)" by (simp add: newChild_props)
      have ne: "nested \<noteq> limit h" using "3.prems"(1) by auto
      have ob: "objs ?h2 (limit h) = HObj [] \<or> objs ?h2 (limit h) = HArr []"
        using ne by (simp add: newChild_props)
      have pr: "pathRefs ?h2 (limit h) (nxt # keys) = [limit h]"
        using ob by (rule pathRefs_fresh_child) simp
      have "objs (setLoopH ?h2 ?rn (nxt # keys) v) r = objs ?h2 r"
        using "3.IH"(1) [OF False None] "3.prems" rn t2 pr by simp
      moreover have "objs ?h2 r = objs h r"
        using "3.prems" by (auto simp: newChild_props)
      ultimately show ?thesis using False None by simp
    qed
  qed
qed

lemma writableH_fresh_child:
  "objs h r = (if isIndex k then HArr [] else HObj []) \<Longrightarrow> list_all (\<lambda>k. \<not> unsafeKey k) (k # ks)
     \<Longrightarrow> writableH h r (k # ks)"
  by (cases ks) (auto simp: accepts_def childRef_def getPropH_def)

lemma baseGetH_setLoopH:
  "\<forall>x \<in> set (pathRefs h root keys). x < limit h \<Longrightarrow> distinct (pathRefs h root keys) \<Longrightarrow>
     writableH h root keys \<Longrightarrow> keys \<noteq> [] \<Longrightarrow>
     baseGetH (setLoopH h root keys v) (HRef root) keys = v"
proof (induction h root keys v rule: setLoopH.induct)
  case (1 h nested v)
  then show ?case by simp
next
  case (2 h nested key v)
  then show ?case
    by (simp add: accepts_def getPropH_assignValueH)
next
  case (3 h nested key nxt keys v)
  from "3.prems"(3) have safe: "\<not> unsafeKey key" and acc: "accepts h nested key"
    by (simp_all add: accepts_def)
  have nt: "nested < limit h" using "3.prems"(1) by simp
  show ?case
  proof (cases "childRef h nested key")
    case (Some r')
    let ?h' = "setLoopH h r' (nxt # keys) v"
    have ih: "baseGetH ?h' (HRef r') (nxt # keys) = v"
      using "3.IH"(2) [OF safe Some] "3.prems" Some by simp
    have "objs ?h' nested = objs h nested"
      using "3.prems" Some nt by (intro setLoopH_frame) auto
    then have "getPropH ?h' (HRef nested) key = getPropH h (HRef nested) key"
      by (simp add: getPropH_def)
    also have "\<dots> = HRef r'"
      using Some by (auto simp: childRef_def split: hval.splits)
    finally show ?thesis
      using ih safe Some by simp
  next
    case None
    let ?h2 = "snd (newChild h nested key nxt)"
    let ?h' = "setLoopH ?h2 (limit h) (nxt # keys) v"
    have ne: "nested \<noteq> limit h" using nt by simp
    have ob: "objs ?h2 (limit h) = (if isIndex nxt then HArr [] else HObj [])"
      using ne by (simp add: newChild_props)
    have pr: "pathRefs ?h2 (limit h) (nxt # keys) = [limit h]"
      using ob by (intro pathRefs_fresh_child) auto
    have sk: "list_all (\<lambda>k. \<not> unsafeKey k) (nxt # keys)"
      using "3.prems"(3) None by simp
    have w: "writableH ?h2 (limit h) (nxt # keys)"
      using ob sk by (rule writableH_fresh_child)
    have ih: "baseGetH ?h' (HRef (limit h)) (nxt # keys) = v"
      using "3.IH"(1) [OF safe None] pr w by (simp add: newChild_props)
    have "objs ?h' nested = objs ?h2 nested"
      using pr nt ne by (intro setLoopH_frame) (auto simp: newChild_props)
    then have "getPropH ?h' (HRef nested) key = getPropH ?h2 (HRef nested) key"
      by (simp add: getPropH_def)
    also have "\<dots> = HRef (limit h)"
      using acc ne
      by (simp add: newChild_def allocObj_def accepts_def getPropH_assignValueH split: prod.split)
    finally show ?thesis
      using ih safe None by (simp add: newChild_props)
  qed
qed

lemma getPropH_field:
  "getPropH h (HRef r) key = HRef r' \<Longrightarrow> HRef r' \<in> set (memberValues (objs h r))"
proof (cases "objs h r")
  case (HObj kvs)
  assume "getPropH h (HRef r) key = HRef r'"
  with HObj have "map_of kvs key = Some (HRef r')"
    by (simp add: getPropH_def split: option.splits)
  then have "(key, HRef r') \<in> set kvs" by (rule map_of_SomeD)
  then have "snd (key, HRef r') \<in> snd ` set kvs" by (rule imageI)
  with HObj show ?thesis by (simp add: memberValues_def)
next
  case (HArr xs)
  assume "getPropH h (HRef r) key = HRef r'"
  with HArr have "indexOf key < length xs" "xs ! indexOf key = HRef r'"
    by (simp_all add: getPropH_def split: if_splits)
  then have "HRef r' \<in> set xs" by (metis nth_mem)
  with HArr show ?thesis by (simp add: memberValues_def)
qed

lemma childRef_eq: "childRef h r key = Some r' \<longleftrightarrow> getPropH h (HRef r) key = HRef r'"
  by (auto simp: childRef_def split: hval.splits)

lemma childRef_field:
  "childRef h r key = Some r' \<Longrightarrow> HRef r' \<in> set (memberValues (objs h r))"
  by (simp add: childRef_eq getPropH_field)

lemma reaches_not_ref: "reaches h v r \<Longrightarrow> \<exists>r0. v = HRef r0"
  by (induction rule: reaches.induct) auto

lemma reaches_getPropH:
  "reaches h (getPropH h (HRef r) key) x \<Longrightarrow> reaches h (HRef r) x"
proof -
  assume a: "reaches h (getPropH h (HRef r) key) x"
  then obtain r0 where r0: "getPropH h (HRef r) key = HRef r0"
    using reaches_not_ref by blast
  then have "HRef r0 \<in> set (memberValues (objs h r))" by (rule getPropH_field)
  with a r0 show ?thesis by (auto intro: reaches.step)
qed

lemma pathRefs_reaches: "x \<in> set (pathRefs h r keys) \<Longrightarrow> reaches h (HRef r) x"
proof (induction h r keys rule: pathRefs.induct)
  case (3 h r key nxt keys)
  show ?case
  proof (cases "childRef h r key")
    case None
    with "3.prems" show ?thesis by (auto intro: reaches.here)
  next
    case (Some r')
    show ?thesis
    proof (cases "x = r")
      case True then show ?thesis by (auto intro: reaches.here)
    next
      case False
      with "3.prems" Some have "x \<in> set (pathRefs h r' (nxt # keys))" by simp
      from "3.IH" [OF Some this] childRef_field [OF Some]
      show ?thesis by (auto intro: reaches.step)
    qed
  qed
qed (auto intro: reaches.here)

lemma baseGetH_undefined [simp]: "baseGetH h HUndefined keys = HUndefined"
  by (cases keys) simp_all

lemma getPropH_prim [simp]:
  "getPropH h HUndefined key = HUndefined" "getPropH h HNull key = HUndefined"
  "getPropH h (HBool b) key = HUndefined" "getPropH h (HNum i) key = HUndefined"
  "getPropH h (HStr s) key = HUndefined"
  by (simp_all add: getPropH_def)

lemma reaches_baseGetH:
  "reaches h (baseGetH h v keys) x \<Longrightarrow> reaches h v x"
proof (induction keys arbitrary: v)
  case Nil
  then show ?case by simp
next
  case (Cons k ks)
  show ?case
  proof (cases v)
    case (HRef r)
    with Cons.prems have "reaches h (baseGetH h (getPropH h (HRef r) k) ks) x" by simp
    from Cons.IH [OF this] HRef show ?thesis by (simp add: reaches_getPropH)
  qed (use Cons.prems in \<open>auto dest: reaches_not_ref\<close>)
qed

lemma baseGetH_frame:
  "\<forall>x. reaches h v x \<longrightarrow> objs h' x = objs h x \<Longrightarrow> baseGetH h' v keys = baseGetH h v keys"
proof (induction keys arbitrary: v)
  case Nil
  then show ?case by simp
next
  case (Cons k ks)
  show ?case
  proof (cases v)
    case (HRef r)
    have same: "getPropH h' (HRef r) k = getPropH h (HRef r) k"
      using Cons.prems HRef by (simp add: getPropH_def reaches.here)
    have "\<forall>x. reaches h (getPropH h (HRef r) k) x \<longrightarrow> objs h' x = objs h x"
      using Cons.prems HRef by (auto dest: reaches_getPropH)
    from Cons.IH [OF this] same HRef show ?thesis by simp
  qed simp_all
qed

lemma those_map_cong:
  "(\<And>x. x \<in> set xs \<Longrightarrow> f x = g x) \<Longrightarrow> those (map f xs) = those (map g xs)"
  by (induction xs) (auto split: option.splits)

lemma treeOf_frame:
  "\<forall>x. reaches h v x \<longrightarrow> objs h' x = objs h x \<Longrightarrow> treeOf n h' v = treeOf n h v"
proof (induction n arbitrary: v)
  case 0
  then show ?case by (cases v) simp_all
next
  case (Suc n)
  show ?case
  proof (cases v)
    case (HRef r)
    have ob: "objs h' r = objs h r"
      using Suc.prems HRef by (simp add: reaches.here)
    have sub: "\<And>w. w \<in> set (memberValues (objs h r)) \<Longrightarrow> treeOf n h' w = treeOf n h w"
      using Suc.prems HRef by (intro Suc.IH) (auto intro: reaches.step)
    show ?thesis
    proof (cases "objs h r")
      case (HObj kvs)
      have "those (map (treeOf n h') (map snd kvs)) = those (map (treeOf n h) (map snd kvs))"
        using sub HObj by (intro those_map_cong) (simp add: memberValues_def)
      with HRef ob HObj show ?thesis by simp
    next
      case (HArr xs)
      have "those (map (treeOf n h') xs) = those (map (treeOf n h) xs)"
        using sub HArr by (intro those_map_cong) (simp add: memberValues_def)
      with HRef ob HArr show ?thesis by simp
    qed
  qed simp_all
qed

lemma those_map_mono:
  "(\<And>x t. x \<in> set xs \<Longrightarrow> f x = Some t \<Longrightarrow> g x = Some t) \<Longrightarrow> those (map f xs) = Some ts
     \<Longrightarrow> those (map g xs) = Some ts"
  by (induction xs arbitrary: ts) (auto split: option.splits)

lemma treeOf_Suc: "treeOf n h v = Some t \<Longrightarrow> treeOf (Suc n) h v = Some t"
proof (induction n arbitrary: v t)
  case 0
  then show ?case by (cases v) simp_all
next
  case (Suc n)
  show ?case
  proof (cases v)
    case (HRef r)
    show ?thesis
    proof (cases "objs h r")
      case (HObj kvs)
      with Suc.prems HRef obtain ts where ts: "those (map (treeOf n h) (map snd kvs)) = Some ts"
        and t: "t = Obj (fmap_of_list (zip (map fst kvs) ts))"
        by auto
      have "those (map (treeOf (Suc n) h) (map snd kvs)) = Some ts"
        using ts by (rule those_map_mono [rotated]) (rule Suc.IH)
      with HRef HObj t show ?thesis by simp
    next
      case (HArr xs)
      with Suc.prems HRef obtain ts where ts: "those (map (treeOf n h) xs) = Some ts"
        and t: "t = Arr ts"
        by auto
      have "those (map (treeOf (Suc n) h) xs) = Some ts"
        using ts by (rule those_map_mono [rotated]) (rule Suc.IH)
      with HRef HArr t show ?thesis by simp
    qed
  qed (use Suc.prems in simp_all)
qed

lemma treeOf_mono: "treeOf n h v = Some t \<Longrightarrow> n \<le> m \<Longrightarrow> treeOf m h v = Some t"
  by (induction m) (auto simp: le_Suc_eq treeOf_Suc)

lemma valueTree_frame:
  assumes "valueTree h v = Some t"
    and "\<forall>x. reaches h v x \<longrightarrow> objs h' x = objs h x"
    and "limit h \<le> limit h'"
  shows "valueTree h' v = Some t"
proof -
  from assms(2) have "treeOf (Suc (limit h)) h' v = treeOf (Suc (limit h)) h v"
    by (rule treeOf_frame)
  with assms(1) have "treeOf (Suc (limit h)) h' v = Some t"
    by (simp add: valueTree_def)
  moreover have "Suc (limit h) \<le> Suc (limit h')"
    using assms(3) by simp
  ultimately have "treeOf (Suc (limit h')) h' v = Some t"
    by (rule treeOf_mono)
  then show ?thesis
    by (simp add: valueTree_def)
qed

lemma splitAt_nonempty: "splitAt sep cur s \<noteq> []"
  by (induction s arbitrary: cur) auto

lemma segmentKeys_nonempty: "segmentKeys seg \<noteq> []"
  by (simp add: segmentKeys_def Let_def)

lemma castPath_nonempty: "castPath path \<noteq> []"
proof (cases "CHR ''.'' \<notin> set path \<and> CHR ''['' \<notin> set path")
  case True
  then show ?thesis by (simp add: castPath_def)
next
  case False
  obtain seg segs where "splitAt (\<lambda>c. c = CHR ''.'') [] path = seg # segs"
    using splitAt_nonempty by (cases "splitAt (\<lambda>c. c = CHR ''.'') [] path") auto
  with False show ?thesis
    by (auto simp: castPath_def segmentKeys_nonempty)
qed

lemma validateFieldH_values:
  "heapH (snd (validateFieldH name st)) = heapH st"
  "formValues (controlH (snd (validateFieldH name st))) = formValues (controlH st)"
  "defaultValues (controlH (snd (validateFieldH name st))) = defaultValues (controlH st)"
  by (simp_all add: validateFieldH_def Let_def)

lemma setValueH_values:
  "heapH (setValueH name arg opts st)
     = setLoopH (heapH st) (formValues (controlH st)) (castPath name) (newValueOfH name arg st)"
  "formValues (controlH (setValueH name arg opts st)) = formValues (controlH st)"
  "defaultValues (controlH (setValueH name arg opts st)) = defaultValues (controlH st)"
  by (simp_all add: setValueH_def Let_def validateFieldH_values set_pathH_def)

text \<open>A write through the form values leaves alone every object the default values reach.\<close>

lemma setValueH_keeps_defaults:
  assumes sep: "sharesNothing st"
    and af: "allocatedH (heapH st) (HRef (formValues (controlH st)))"
    and ad: "allocatedH (heapH st) (HRef (defaultValues (controlH st)))"
    and r: "reaches (heapH st) (HRef (defaultValues (controlH st))) x"
  shows "objs (heapH (setValueH name arg opts st)) x = objs (heapH st) x"
proof -
  let ?h = "heapH st" and ?f = "formValues (controlH st)" and ?ks = "castPath name"
  have p: "\<forall>y \<in> set (pathRefs ?h ?f ?ks). reaches ?h (HRef ?f) y"
    by (blast intro: pathRefs_reaches)
  then have "\<forall>y \<in> set (pathRefs ?h ?f ?ks). y < limit ?h"
    using af unfolding allocatedH_def by blast
  moreover have "x < limit ?h"
    using ad r unfolding allocatedH_def by blast
  moreover have "x \<notin> set (pathRefs ?h ?f ?ks)"
    using p sep r unfolding sharesNothing_def by blast
  ultimately have "objs (setLoopH ?h ?f ?ks (newValueOfH name arg st)) x = objs ?h x"
    by (rule setLoopH_frame)
  then show ?thesis
    by (simp add: setValueH_values(1))
qed

lemma setValueH_default:
  assumes "sharesNothing st"
    and "allocatedH (heapH st) (HRef (formValues (controlH st)))"
    and "allocatedH (heapH st) (HRef (defaultValues (controlH st)))"
  shows "defaultAtH name (setValueH name arg opts st) = defaultAtH name st"
    and "valueTree (heapH st) (defaultAtH name st) = Some t
           \<Longrightarrow> valueTree (heapH (setValueH name arg opts st)) (defaultAtH name st) = Some t"
proof -
  let ?h = "heapH st" and ?h' = "heapH (setValueH name arg opts st)"
  let ?d = "HRef (defaultValues (controlH st))"
  have keep: "\<forall>x. reaches ?h ?d x \<longrightarrow> objs ?h' x = objs ?h x"
    using assms by (blast intro: setValueH_keeps_defaults)
  then have "baseGetH ?h' ?d (castPath name) = baseGetH ?h ?d (castPath name)"
    by (rule baseGetH_frame)
  then show "defaultAtH name (setValueH name arg opts st) = defaultAtH name st"
    by (simp add: defaultAtH_def getH_def setValueH_values(3))
  have "\<forall>x. reaches ?h (defaultAtH name st) x \<longrightarrow> reaches ?h ?d x"
    by (auto simp: defaultAtH_def getH_def dest: reaches_baseGetH)
  with keep have "\<forall>x. reaches ?h (defaultAtH name st) x \<longrightarrow> objs ?h' x = objs ?h x"
    by blast
  moreover have "limit ?h \<le> limit ?h'"
    by (simp add: setValueH_values setLoopH_top)
  ultimately show "valueTree ?h (defaultAtH name st) = Some t
           \<Longrightarrow> valueTree ?h' (defaultAtH name st) = Some t"
    by (rule valueTree_frame [rotated])
qed

lemma getValueH_setValueH:
  assumes "allocatedH (heapH st) (HRef (formValues (controlH st)))"
    and "distinct (pathRefs (heapH st) (formValues (controlH st)) (castPath name))"
    and "writableH (heapH st) (formValues (controlH st)) (castPath name)"
  shows "getValueH name (setValueH name arg opts st) = newValueOfH name arg st"
proof -
  have "\<forall>y \<in> set (pathRefs (heapH st) (formValues (controlH st)) (castPath name)). y < limit (heapH st)"
    using assms(1) unfolding allocatedH_def by (blast intro: pathRefs_reaches)
  then have "baseGetH (setLoopH (heapH st) (formValues (controlH st)) (castPath name)
                        (newValueOfH name arg st))
               (HRef (formValues (controlH st))) (castPath name) = newValueOfH name arg st"
    using assms(2,3) castPath_nonempty by (rule baseGetH_setLoopH)
  then show ?thesis
    by (simp add: getValueH_def getH_def setValueH_values)
qed

lemmas heap_defs = getIsDirtyH_def isEqualH_def valueTree_def getValueH_def defaultAtH_def getH_def
  castPath_def segmentKeys_def getPropH_def setValueH_def newValueOfH_def set_pathH_def
  childRef_def newChild_def unsafeKey_def assignValueH_def defaultSetValueOptions_def
  validateFieldH_def getCurrentFieldErrorsH_def

lemma addressForm_eval:
  "controlH addressForm = \<lparr>defaultValues = 1, reValidateMode = ModeOnSubmit, formValues = 2,
      fieldErrors = [], rules = []\<rparr>"
  "limit (heapH addressForm) = 4"
  "objs (heapH addressForm) 0 = HObj [(''street'', HStr ''a'')]"
  "objs (heapH addressForm) (Suc 0) = HObj [(''address'', HRef 0)]"
  "objs (heapH addressForm) 2 = HObj [(''address'', HRef 3)]"
  "objs (heapH addressForm) 3 = HObj [(''street'', HStr ''a'')]"
  by (simp_all add: addressForm_def addressHeap_def useFormH_def createControlH_def
      orEmptyObjectH_def cloneDeepH_def allocObj_def emptyHeap_def propsMode_def
      emptyLike_def withValues_def memberValues_def Let_def)

lemma reaches_closed:
  "reaches h v r \<Longrightarrow> (\<forall>x. v = HRef x \<longrightarrow> x \<in> S)
     \<Longrightarrow> (\<forall>x \<in> S. \<forall>y. HRef y \<in> set (memberValues (objs h x)) \<longrightarrow> y \<in> S) \<Longrightarrow> r \<in> S"
  by (induction rule: reaches.induct) auto

lemma allocatedH_prim:
  "allocatedH h HUndefined" "allocatedH h HNull" "allocatedH h (HBool b)"
  "allocatedH h (HNum i)" "allocatedH h (HStr s)"
  by (auto simp: allocatedH_def dest: reaches_not_ref)

lemma changedForm_eval:
  "controlH changedForm = \<lparr>defaultValues = 1, reValidateMode = ModeOnSubmit, formValues = 2,
      fieldErrors = [], rules = []\<rparr>"
  "limit (heapH changedForm) = 4"
  "objs (heapH changedForm) 0 = HObj [(''street'', HStr ''a'')]"
  "objs (heapH changedForm) (Suc 0) = HObj [(''address'', HRef 0)]"
  "objs (heapH changedForm) 2 = HObj [(''address'', HRef 3)]"
  "objs (heapH changedForm) 3 = HObj [(''street'', HStr ''b'')]"
  by (simp_all add: changedForm_def heap_defs addressForm_eval Let_def)

lemma example_reach:
  assumes "objs h 0 = HObj [(''street'', s0)]" "objs h (Suc 0) = HObj [(''address'', HRef 0)]"
    and "objs h 2 = HObj [(''address'', HRef 3)]" "objs h 3 = HObj [(''street'', s3)]"
    and "\<forall>x. s0 \<noteq> HRef x" "\<forall>x. s3 \<noteq> HRef x"
  shows "reaches h (HRef 2) r \<Longrightarrow> r \<in> {2, 3}"
    and "reaches h (HRef (Suc 0)) r \<Longrightarrow> r \<in> {0, Suc 0}"
proof -
  show "reaches h (HRef 2) r \<Longrightarrow> r \<in> {2, 3}"
    by (erule reaches_closed) (use assms in \<open>auto simp: memberValues_def\<close>)
  show "reaches h (HRef (Suc 0)) r \<Longrightarrow> r \<in> {0, Suc 0}"
    by (erule reaches_closed) (use assms in \<open>auto simp: memberValues_def\<close>)
qed

lemma example_separate:
  assumes "controlH st = \<lparr>defaultValues = 1, reValidateMode = ModeOnSubmit, formValues = 2,
      fieldErrors = [], rules = []\<rparr>"
    and "limit (heapH st) = 4"
    and "objs (heapH st) 0 = HObj [(''street'', HStr s0)]"
    and "objs (heapH st) (Suc 0) = HObj [(''address'', HRef 0)]"
    and "objs (heapH st) 2 = HObj [(''address'', HRef 3)]"
    and "objs (heapH st) 3 = HObj [(''street'', HStr s3)]"
  shows "sharesNothing st"
    and "allocatedH (heapH st) (HRef (formValues (controlH st)))"
    and "allocatedH (heapH st) (HRef (defaultValues (controlH st)))"
proof -
  have f: "\<And>r. reaches (heapH st) (HRef 2) r \<Longrightarrow> r \<in> {2, 3}"
    and d: "\<And>r. reaches (heapH st) (HRef (Suc 0)) r \<Longrightarrow> r \<in> {0, Suc 0}"
    using assms(3-6) by (auto dest: example_reach [rotated -1])
  show "sharesNothing st"
    using f d by (fastforce simp: sharesNothing_def assms(1))
  show "allocatedH (heapH st) (HRef (formValues (controlH st)))"
    using f by (fastforce simp: allocatedH_def assms(1,2))
  show "allocatedH (heapH st) (HRef (defaultValues (controlH st)))"
    using d by (fastforce simp: allocatedH_def assms(1,2))
qed

section \<open>Dirtiness\<close>

lemma getIsDirty_created:
  "(getIsDirty name st \<longleftrightarrow> getValue name st \<noteq> get (defaultValuesValue st) name)
   \<and> \<not> getIsDirty name (useForm dv mode h)
   \<and> \<not> getIsDirty name (reset a st)"
proof (intro conjI)
  show "getIsDirty name st \<longleftrightarrow> getValue name st \<noteq> get (defaultValuesValue st) name"
    by (simp add: getIsDirty_def isEqual_def)
  show "\<not> getIsDirty name (useForm dv mode h)"
    by (cases dv) (simp_all add: getIsDirty_def isEqual_def getValue_def formValuesValue_def
        defaultValuesValue_def useForm_def createControl_def orEmptyObject_def alloc_def
        cloneDeep_def)
  show "\<not> getIsDirty name (reset a st)"
    by (simp add: getIsDirty_def isEqual_def getValue_def formValuesValue_def
        defaultValuesValue_def reset_def createControl_def orEmptyObject_def alloc_def
        cloneDeep_def)
qed

lemma getIsDirtyH_setValueH:
  "(getIsDirtyH name sh \<longleftrightarrow>
        valueTree (heapH sh) (getValueH name sh) \<noteq> valueTree (heapH sh) (defaultAtH name sh))
   \<and> (plainPath (castPath name) \<and> sharesNothing sh
        \<and> allocatedH (heapH sh) (HRef (formValues (controlH sh)))
        \<and> allocatedH (heapH sh) (HRef (defaultValues (controlH sh)))
        \<and> valueTree (heapH sh) (defaultAtH name sh) \<noteq> None
        \<and> \<not> getIsDirtyH name sh
        \<and> valueTree (heapH (setValueH name arg opts sh)) (getValueH name (setValueH name arg opts sh))
            \<noteq> valueTree (heapH sh) (getValueH name sh)
      \<longrightarrow> getIsDirtyH name (setValueH name arg opts sh))
   \<and> (plainPath (castPath name) \<and> sharesNothing sh
        \<and> allocatedH (heapH sh) (HRef (formValues (controlH sh)))
        \<and> allocatedH (heapH sh) (HRef (defaultValues (controlH sh)))
        \<and> valueTree (heapH sh) (defaultAtH name sh) \<noteq> None
        \<and> writableH (heapH sh) (formValues (controlH sh)) (castPath name)
        \<and> distinct (pathRefs (heapH sh) (formValues (controlH sh)) (castPath name))
        \<and> valueTree (heapH sh) (newValueOfH name arg sh) \<noteq> None
        \<and> allocatedH (heapH sh) (newValueOfH name arg sh)
        \<and> (\<forall>r. reaches (heapH sh) (newValueOfH name arg sh) r
               \<longrightarrow> r \<notin> set (pathRefs (heapH sh) (formValues (controlH sh)) (castPath name)))
      \<longrightarrow> (getIsDirtyH name (setValueH name arg opts sh)
             \<longleftrightarrow> \<not> isEqualH (heapH sh) (newValueOfH name arg sh) (defaultAtH name sh)))"
proof (intro conjI impI)
  show "getIsDirtyH name sh \<longleftrightarrow>
        valueTree (heapH sh) (getValueH name sh) \<noteq> valueTree (heapH sh) (defaultAtH name sh)"
    by (simp add: getIsDirtyH_def isEqualH_def)
next
  let ?st' = "setValueH name arg opts sh"
  assume a: "plainPath (castPath name) \<and> sharesNothing sh
        \<and> allocatedH (heapH sh) (HRef (formValues (controlH sh)))
        \<and> allocatedH (heapH sh) (HRef (defaultValues (controlH sh)))
        \<and> valueTree (heapH sh) (defaultAtH name sh) \<noteq> None
        \<and> \<not> getIsDirtyH name sh
        \<and> valueTree (heapH ?st') (getValueH name ?st') \<noteq> valueTree (heapH sh) (getValueH name sh)"
  then obtain t where t: "valueTree (heapH sh) (defaultAtH name sh) = Some t"
    by auto
  from a have d: "defaultAtH name ?st' = defaultAtH name sh"
    by (intro setValueH_default(1)) simp_all
  from a t have t': "valueTree (heapH ?st') (defaultAtH name sh) = Some t"
    by (simp add: setValueH_default(2) [of sh name _ arg opts])
  from a t have c: "valueTree (heapH sh) (getValueH name sh) = Some t"
    by (simp add: getIsDirtyH_def isEqualH_def)
  from a have "valueTree (heapH ?st') (getValueH name ?st') \<noteq> valueTree (heapH sh) (getValueH name sh)"
    by blast
  then have "valueTree (heapH ?st') (getValueH name ?st') \<noteq> valueTree (heapH ?st') (defaultAtH name ?st')"
    by (simp add: c t' d)
  then show "getIsDirtyH name ?st'"
    by (simp add: getIsDirtyH_def isEqualH_def)
next
  let ?st' = "setValueH name arg opts sh"
  let ?h = "heapH sh" and ?v = "newValueOfH name arg sh"
  let ?ps = "pathRefs (heapH sh) (formValues (controlH sh)) (castPath name)"
  assume a: "plainPath (castPath name) \<and> sharesNothing sh
        \<and> allocatedH ?h (HRef (formValues (controlH sh)))
        \<and> allocatedH ?h (HRef (defaultValues (controlH sh)))
        \<and> valueTree ?h (defaultAtH name sh) \<noteq> None
        \<and> writableH ?h (formValues (controlH sh)) (castPath name)
        \<and> distinct ?ps
        \<and> valueTree ?h ?v \<noteq> None
        \<and> allocatedH ?h ?v
        \<and> (\<forall>r. reaches ?h ?v r \<longrightarrow> r \<notin> set ?ps)"
  then obtain t u where t: "valueTree ?h (defaultAtH name sh) = Some t"
    and u: "valueTree ?h ?v = Some u"
    by auto
  from a have d: "defaultAtH name ?st' = defaultAtH name sh"
    by (intro setValueH_default(1)) simp_all
  from a t have t': "valueTree (heapH ?st') (defaultAtH name sh) = Some t"
    by (simp add: setValueH_default(2) [of sh name _ arg opts])
  from a have g: "getValueH name ?st' = ?v"
    by (intro getValueH_setValueH) simp_all
  have ps: "\<forall>y \<in> set ?ps. y < limit ?h"
    using a unfolding allocatedH_def by (blast intro: pathRefs_reaches)
  have "\<forall>x. reaches ?h ?v x \<longrightarrow> objs (heapH ?st') x = objs ?h x"
  proof (intro allI impI)
    fix x
    assume x: "reaches ?h ?v x"
    with a have "x < limit ?h" "x \<notin> set ?ps"
      unfolding allocatedH_def by blast+
    with ps have "objs (setLoopH ?h (formValues (controlH sh)) (castPath name) ?v) x = objs ?h x"
      by (rule setLoopH_frame)
    then show "objs (heapH ?st') x = objs ?h x"
      by (simp add: setValueH_values(1))
  qed
  moreover have "limit ?h \<le> limit (heapH ?st')"
    by (simp add: setValueH_values setLoopH_top)
  ultimately have u': "valueTree (heapH ?st') ?v = Some u"
    by (rule valueTree_frame [OF u])
  show "getIsDirtyH name ?st' \<longleftrightarrow> \<not> isEqualH ?h ?v (defaultAtH name sh)"
    by (simp add: getIsDirtyH_def isEqualH_def d g t t' u u')
qed

text \<open>
  Claim C8, as the code has it. \<open>getIsDirty(path)\<close> is true exactly when the current value
  at the path is not deep-equal to the default value at the path, and it is false for
  every path right after \<open>useForm\<close> and right after \<open>reset\<close>. For \<open>setValue\<close> the objects
  count: as long as the form values and the default values have no object in common (the
  path being made of ordinary names and the default value at it having no cycle), a
  \<open>setValue\<close> that changes the value at a path that was not dirty makes it dirty; and
  where the write can be read back and the new value is not itself one of the objects
  written through, the path is dirty after \<open>setValue\<close> exactly when the new value is not
  deep-equal to the default, so that setting the default value again makes it clean.
\<close>

theorem getIsDirty_tracks_default:
  "(getIsDirty name st \<longleftrightarrow> getValue name st \<noteq> get (defaultValuesValue st) name)
   \<and> \<not> getIsDirty name (useForm dv mode h)
   \<and> \<not> getIsDirty name (reset a st)
   \<and> (getIsDirtyH name sh \<longleftrightarrow>
        valueTree (heapH sh) (getValueH name sh) \<noteq> valueTree (heapH sh) (defaultAtH name sh))
   \<and> (plainPath (castPath name) \<and> sharesNothing sh
        \<and> allocatedH (heapH sh) (HRef (formValues (controlH sh)))
        \<and> allocatedH (heapH sh) (HRef (defaultValues (controlH sh)))
        \<and> valueTree (heapH sh) (defaultAtH name sh) \<noteq> None
        \<and> \<not> getIsDirtyH name sh
        \<and> valueTree (heapH (setValueH name arg opts sh)) (getValueH name (setValueH name arg opts sh))
            \<noteq> valueTree (heapH sh) (getValueH name sh)
      \<longrightarrow> getIsDirtyH name (setValueH name arg opts sh))
   \<and> (plainPath (castPath name) \<and> sharesNothing sh
        \<and> allocatedH (heapH sh) (HRef (formValues (controlH sh)))
        \<and> allocatedH (heapH sh) (HRef (defaultValues (controlH sh)))
        \<and> valueTree (heapH sh) (defaultAtH name sh) \<noteq> None
        \<and> writableH (heapH sh) (formValues (controlH sh)) (castPath name)
        \<and> distinct (pathRefs (heapH sh) (formValues (controlH sh)) (castPath name))
        \<and> valueTree (heapH sh) (newValueOfH name arg sh) \<noteq> None
        \<and> allocatedH (heapH sh) (newValueOfH name arg sh)
        \<and> (\<forall>r. reaches (heapH sh) (newValueOfH name arg sh) r
               \<longrightarrow> r \<notin> set (pathRefs (heapH sh) (formValues (controlH sh)) (castPath name)))
      \<longrightarrow> (getIsDirtyH name (setValueH name arg opts sh)
             \<longleftrightarrow> \<not> isEqualH (heapH sh) (newValueOfH name arg sh) (defaultAtH name sh)))"
proof -
  note created = getIsDirty_created [of name st dv mode h a]
  note written = getIsDirtyH_setValueH [of name sh arg opts]
  from created written show ?thesis
    by (elim conjE) (intro conjI; assumption)
qed

theorem getIsDirty_tracks_default_witness:
  "\<not> getIsDirty ''name'' callerForm
   \<and> plainPath (castPath ''address.street'')
   \<and> sharesNothing addressForm
   \<and> \<not> getIsDirtyH ''address.street'' addressForm
   \<and> getValueH ''address.street'' changedForm = HStr ''b''
   \<and> getIsDirtyH ''address.street'' changedForm
   \<and> sharesNothing changedForm
   \<and> \<not> getIsDirtyH ''address.street''
         (setValueH ''address.street'' (ValueH (HStr ''a'')) None changedForm)"
proof -
  let ?n = "''address.street''"
  note t0 = getIsDirty_tracks_default
    [where name = ?n and st = callerForm and dv = "Some 0" and mode = None and h = callerStore
       and a = 0 and sh = addressForm and arg = "ValueH (HStr ''b'')" and opts = None]
  note t1 = getIsDirty_tracks_default
    [where name = ?n and st = callerForm and dv = "Some 0" and mode = None and h = callerStore
       and a = 0 and sh = changedForm and arg = "ValueH (HStr ''a'')" and opts = None]
  note t2 = getIsDirty_tracks_default
    [where name = "''name''" and st = callerForm and dv = "Some 0" and mode = None
       and h = callerStore and a = 0 and sh = addressForm and arg = "ValueH (HStr ''b'')"
       and opts = None]
  from t2 have cf: "\<not> getIsDirty ''name'' callerForm"
    unfolding callerForm_def by blast
  note s0 = example_separate [OF addressForm_eval]
  note s1 = example_separate [OF changedForm_eval]
  have pp: "plainPath (castPath ?n)"
    by (simp add: plainPath_def castPath_def segmentKeys_def objectPrototypeKeys_def
        reservedKeys_def reactiveFlagKeys_def)
  have c0: "\<not> getIsDirtyH ?n addressForm"
    by (simp add: heap_defs addressForm_eval)
  have g1: "getValueH ?n changedForm = HStr ''b''"
    by (simp add: heap_defs changedForm_eval)
  have e0: "valueTree (heapH addressForm) (defaultAtH ?n addressForm) \<noteq> None
      \<and> writableH (heapH addressForm) (formValues (controlH addressForm)) (castPath ?n)
      \<and> distinct (pathRefs (heapH addressForm) (formValues (controlH addressForm)) (castPath ?n))
      \<and> \<not> isEqualH (heapH addressForm) (HStr ''b'') (defaultAtH ?n addressForm)"
    by (simp add: heap_defs addressForm_eval accepts_def)
  have e1: "valueTree (heapH changedForm) (defaultAtH ?n changedForm) \<noteq> None
      \<and> writableH (heapH changedForm) (formValues (controlH changedForm)) (castPath ?n)
      \<and> distinct (pathRefs (heapH changedForm) (formValues (controlH changedForm)) (castPath ?n))
      \<and> isEqualH (heapH changedForm) (HStr ''a'') (defaultAtH ?n changedForm)"
    by (simp add: heap_defs changedForm_eval accepts_def)
  have p: "\<And>h s. valueTree h (HStr s) \<noteq> None \<and> allocatedH h (HStr s)
      \<and> (\<forall>r. reaches h (HStr s) r \<longrightarrow> r \<notin> set (pathRefs h 2 (castPath ?n)))"
    by (auto simp: valueTree_def allocatedH_prim dest: reaches_not_ref)
  have d1: "getIsDirtyH ?n changedForm"
    using t0 pp s0 e0 p [of "heapH addressForm" "''b''"]
    by (simp add: changedForm_def newValueOfH_def addressForm_eval)
  have c2: "\<not> getIsDirtyH ?n (setValueH ?n (ValueH (HStr ''a'')) None changedForm)"
    using t1 pp s1 e1 p [of "heapH changedForm" "''a''"]
    by (simp add: newValueOfH_def changedForm_eval)
  from cf pp s0(1) c0 g1 d1 s1(1) c2 show ?thesis by simp
qed

text \<open>
  Against claim C8 as it is worded (true after any \<open>setValue\<close> that changes the value at the
  path): the caller has set \<open>address\<close> to the default values' own \<open>address\<close> object, so
  \<open>address.street\<close> is \<open>"a"\<close> and not dirty. \<open>setValue("address.street", "b")\<close> changes the
  value at that path to \<open>"b"\<close>, and the path is still not dirty: the write went through to
  the default values, which now read \<open>"b"\<close> as well.
\<close>

theorem getIsDirty_shared_default_counterexample:
  "getValueH ''address.street'' revertedForm = HStr ''a''
   \<and> \<not> getIsDirtyH ''address.street'' revertedForm
   \<and> getValueH ''address.street''
        (setValueH ''address.street'' (ValueH (HStr ''b'')) None revertedForm) = HStr ''b''
   \<and> \<not> getIsDirtyH ''address.street''
        (setValueH ''address.street'' (ValueH (HStr ''b'')) None revertedForm)"
  by (simp add: revertedForm_def heap_defs addressForm_eval Let_def)

section \<open>Setting a value\<close>

text \<open>
  Claim C10. The default \<open>{shouldValidate: true}\<close> of \<open>setValue\<close> is used only when the
  options argument is missing. With an options object whose \<open>shouldValidate\<close> is absent or
  false, \<open>setValue\<close> writes the value and does nothing else: the error map is as before,
  whatever the revalidation mode. Without options, in mode \<open>onChange\<close> or \<open>all\<close>, the path is
  validated after the write.
\<close>

theorem setValue_default_options:
  "setValue name arg None st
     = setValue name arg (Some \<lparr>shouldValidate = Some True, deepValidate = dv\<rparr>) st
   \<and> (shouldValidate opts \<noteq> Some True \<longrightarrow>
        setValue name arg (Some opts) st = assignFormValue name (newValueOf name arg st) st
        \<and> fieldErrors (control (setValue name arg (Some opts) st)) = fieldErrors (control st)
        \<and> getValue name (setValue name arg (Some opts) st)
            = get (set_path (formValuesValue st) name (newValueOf name arg st)) name)
   \<and> (reValidateMode (control st) = ModeOnChange \<or> reValidateMode (control st) = ModeAll \<longrightarrow>
        setValue name arg None st
          = snd (validateField name (assignFormValue name (newValueOf name arg st) st)))"
  by (auto simp: setValue_def defaultSetValueOptions_def Let_def assignFormValue_def
      getValue_def formValuesValue_def mutate_def setAt_def)

theorem setValue_default_options_witness:
  "shouldValidate \<lparr>shouldValidate = None, deepValidate = Some True\<rparr> \<noteq> Some True
   \<and> reValidateMode (control invalidForm) = ModeOnChange
   \<and> getValue ''name''
       (setValue ''name'' (Value (Str []))
          (Some \<lparr>shouldValidate = None, deepValidate = Some True\<rparr>) invalidForm) = Str []
   \<and> getError ''name''
       (setValue ''name'' (Value (Str []))
          (Some \<lparr>shouldValidate = None, deepValidate = Some True\<rparr>) invalidForm) = Absent
   \<and> getError ''name'' (setValue ''name'' (Value (Str [])) None invalidForm)
       = Own [''Field is required!'']"
proof -
  let ?opts = "\<lparr>shouldValidate = None, deepValidate = Some True\<rparr>"
  have o: "shouldValidate ?opts \<noteq> Some True"
    by simp
  have e: "getError ''name''
             (snd (validateField ''name'' (assignFormValue ''name'' (Str []) invalidForm)))
           = Own [''Field is required!'']"
    by (simp add: example_defs form_defs validator_defs Let_def)
  have g: "get (set_path (formValuesValue invalidForm) ''name'' (Str [])) ''name'' = Str []"
    by (simp add: example_defs form_defs)
  note t = setValue_default_options [of "''name''" "Value (Str [])" invalidForm None ?opts]
  from t o
  have a: "fieldErrors (control (setValue ''name'' (Value (Str [])) (Some ?opts) invalidForm))
             = fieldErrors (control invalidForm)"
    and b: "getValue ''name'' (setValue ''name'' (Value (Str [])) (Some ?opts) invalidForm)
              = get (set_path (formValuesValue invalidForm) ''name''
                       (newValueOf ''name'' (Value (Str [])) invalidForm)) ''name''"
    by blast+
  from t invalidForm_control(1)
  have c: "setValue ''name'' (Value (Str [])) None invalidForm
             = snd (validateField ''name''
                      (assignFormValue ''name''
                         (newValueOf ''name'' (Value (Str [])) invalidForm) invalidForm))"
    by blast
  show ?thesis
    using o invalidForm_control a b c e g
    by (simp add: getError_def readProperty_def objectPrototypeKeys_def newValueOf_def)
qed

end
